theory Spec2Isabelle
  imports Main "HOL-Library.Word" "HOL-Library.AList" "HOL-Library.Code_Target_Numeral"
begin

unbundle bit_operations_syntax

section \<open>Values shared by the client and the host ledger\<close>

text \<open>
  A byte of a \<^verbatim>\<open>Buffer\<close> is an 8-bit word.  A JavaScript \<^verbatim>\<open>Error\<close> is the value that a
  \<^verbatim>\<open>throw\<close> carries; a call either throws (\<open>Inl\<close>) or returns (\<open>Inr\<close>).  A web3.js
  \<^verbatim>\<open>PublicKey\<close> is represented by its base58 text, which is what \<^verbatim>\<open>toString()\<close> yields
  and what the client compares.  A transaction signature is a string.
\<close>

type_synonym byte = "8 word"

datatype error = Error (error_message: string)

type_synonym 'a result = "error + 'a"

datatype PublicKey = PublicKey (toString: string)

type_synonym tx = string

text \<open>The two account kinds of the program, as the README gives them.\<close>

record ChatRoom =
  messageCount :: nat

record Message =
  sender :: PublicKey
  recipient :: PublicKey
  encryptedContent :: "byte list"
  timestamp :: int
  messageId :: nat

section \<open>The Anchor program handle\<close>

text \<open>
  \<^verbatim>\<open>this.program\<close> is the handle through which the client reaches the host ledger.  The
  ledger, the network and the web3.js helpers are not part of the client: they are the
  fields of this record, over a world \<open>'w\<close> (everything outside the process) and an
  address type \<open>'a\<close>.  A transaction returns its outcome and the new world; a read returns
  its outcome only.
\<close>

record ('w, 'a) Program =
  findProgramAddress :: "byte list list \<Rightarrow> 'a"
  newPublicKey :: "string \<Rightarrow> PublicKey result"
  rpc_initialize :: "'a \<Rightarrow> PublicKey \<Rightarrow> 'w \<Rightarrow> tx result \<times> 'w"
  rpc_sendMessage :: "byte list \<Rightarrow> PublicKey \<Rightarrow> 'a \<Rightarrow> 'a \<Rightarrow> PublicKey \<Rightarrow> 'w \<Rightarrow> tx result \<times> 'w"
  account_chatRoom_fetch :: "'a \<Rightarrow> 'w \<Rightarrow> ChatRoom result"
  account_message_all :: "'w \<Rightarrow> ('a \<times> Message) list result"

section \<open>The client: class EncryptedChat\<close>

text \<open>
  The constructor leaves \<^verbatim>\<open>provider\<close>, \<^verbatim>\<open>program\<close> and \<^verbatim>\<open>chatRoomPda\<close> null (\<open>None\<close>);
  \<^verbatim>\<open>initialize(wallet)\<close> sets the three.  The provider is represented by the public key of
  its wallet, the only part of it that the client reads.
\<close>

record ('w, 'a) EncryptedChat =
  provider :: "PublicKey option"
  program :: "('w, 'a) Program option"
  chatRoomPda :: "'a option"

definition Buffer_from_utf8 :: "string \<Rightarrow> byte list" where
  "Buffer_from_utf8 s = map (\<lambda>c. of_char c) s"

definition new_EncryptedChat :: "('w, 'a) EncryptedChat" where
  "new_EncryptedChat = \<lparr>provider = None, program = None, chatRoomPda = None\<rparr>"

definition chat_room_seeds :: "byte list list" where
  "chat_room_seeds = [Buffer_from_utf8 ''chat_room'']"

definition initialize :: "('w, 'a) Program \<Rightarrow> PublicKey \<Rightarrow> ('w, 'a) EncryptedChat \<Rightarrow> ('w, 'a) EncryptedChat" where
  "initialize P wallet this =
     this\<lparr>provider := Some wallet,
          program := Some P,
          chatRoomPda := Some (findProgramAddress P chat_room_seeds)\<rparr>"

text \<open>
  A property read on null raises a TypeError, and a null account makes the call throw as
  well.  In \<^verbatim>\<open>initializeChatRoom\<close> all of this is inside the \<^verbatim>\<open>try\<close> block, whose
  \<^verbatim>\<open>catch\<close> logs the message and falls through: the call returns \<^verbatim>\<open>undefined\<close>
  (\<open>None\<close>).
\<close>

definition TypeError :: error where
  "TypeError = Error ''Cannot read properties of null''"

definition initializeChatRoom_body :: "('w, 'a) EncryptedChat \<Rightarrow> 'w \<Rightarrow> tx result \<times> 'w" where
  "initializeChatRoom_body this w =
     (case program this of
        None \<Rightarrow> (Inl TypeError, w)
      | Some P \<Rightarrow>
          (case provider this of
             None \<Rightarrow> (Inl TypeError, w)
           | Some user \<Rightarrow>
               (case chatRoomPda this of
                  None \<Rightarrow> (Inl TypeError, w)
                | Some pda \<Rightarrow> rpc_initialize P pda user w)))"

definition initializeChatRoom :: "('w, 'a) EncryptedChat \<Rightarrow> 'w \<Rightarrow> tx option result \<times> 'w" where
  "initializeChatRoom this w =
     (case initializeChatRoom_body this w of
        (Inr t, w') \<Rightarrow> (Inr (Some t), w')
      | (Inl e, w') \<Rightarrow> (Inr None, w'))"

text \<open>
  \<^verbatim>\<open>BN.toArrayLike(Buffer, 'le', length)\<close>: the little-endian bytes of a non-negative
  number, padded with zeros to \<open>length\<close>; it throws when the number needs more bytes.
\<close>

fun le_bytes :: "nat \<Rightarrow> nat \<Rightarrow> byte list" where
  "le_bytes 0 n = []"
| "le_bytes (Suc k) n = of_nat (n mod 256) # le_bytes k (n div 256)"

definition toArrayLike_le :: "nat \<Rightarrow> nat \<Rightarrow> byte list result" where
  "toArrayLike_le len n =
     (if n < 256 ^ len then Inr (le_bytes len n)
      else Inl (Error ''byte array longer than desired length''))"

definition message_seeds :: "byte list \<Rightarrow> byte list list" where
  "message_seeds le = [Buffer_from_utf8 ''message'', le]"

text \<open>The sequencing of calls that may throw: the first throw ends the block.\<close>

definition andThen :: "'a result \<Rightarrow> ('a \<Rightarrow> 'b result) \<Rightarrow> 'b result" where
  "andThen r f = (case r of Inl e \<Rightarrow> Inl e | Inr x \<Rightarrow> f x)"

definition notNull :: "'a option \<Rightarrow> 'a result" where
  "notNull v = (case v of None \<Rightarrow> Inl TypeError | Some x \<Rightarrow> Inr x)"

section \<open>The base64 transport encoding\<close>

text \<open>
  \<^verbatim>\<open>forge.util.encode64\<close>, \<^verbatim>\<open>forge.util.decode64\<close> and Node's
  \<^verbatim>\<open>Buffer.from(s, 'base64')\<close>, \<^verbatim>\<open>buf.toString('base64')\<close> are library functions.  Both
  libraries implement base64 with padding (RFC 4648, section 4) over the table below, in
  which \<open>=\<close> has index 64; the functions here follow the forge routines, with the
  shifts and masks on character codes written as they are there.  The libraries differ
  only on texts that no encoder produces (line breaks, the URL alphabet, misplaced
  padding, a truncated last group); there the decoder below drops every character
  outside the table and an incomplete last group.
\<close>

definition base64_table :: string where
  "base64_table = ''ABCDEFGHIJKLMNOPQRSTUVWXYZabcdefghijklmnopqrstuvwxyz0123456789+/=''"

definition base64_charAt :: "nat \<Rightarrow> char" where
  "base64_charAt i = base64_table ! i"

fun index_in :: "char \<Rightarrow> string \<Rightarrow> nat" where
  "index_in c [] = 0"
| "index_in c (x # xs) = (if c = x then 0 else Suc (index_in c xs))"

definition base64Idx :: "char \<Rightarrow> nat" where
  "base64Idx c = index_in c base64_table"

fun encode64 :: "byte list \<Rightarrow> string" where
  "encode64 [] = []"
| "encode64 [b1] =
     (let chr1 = unat b1 in
      [base64_charAt (drop_bit 2 chr1),
       base64_charAt (push_bit 4 (chr1 AND 3)),
       CHR ''='', CHR ''=''])"
| "encode64 [b1, b2] =
     (let chr1 = unat b1; chr2 = unat b2 in
      [base64_charAt (drop_bit 2 chr1),
       base64_charAt (push_bit 4 (chr1 AND 3) OR drop_bit 4 chr2),
       base64_charAt (push_bit 2 (chr2 AND 15)),
       CHR ''=''])"
| "encode64 (b1 # b2 # b3 # rest) =
     (let chr1 = unat b1; chr2 = unat b2; chr3 = unat b3 in
      [base64_charAt (drop_bit 2 chr1),
       base64_charAt (push_bit 4 (chr1 AND 3) OR drop_bit 4 chr2),
       base64_charAt (push_bit 2 (chr2 AND 15) OR drop_bit 6 chr3),
       base64_charAt (chr3 AND 63)] @ encode64 rest)"

fun decode64_groups :: "string \<Rightarrow> byte list" where
  "decode64_groups (c1 # c2 # c3 # c4 # rest) =
     (let enc1 = base64Idx c1; enc2 = base64Idx c2; enc3 = base64Idx c3; enc4 = base64Idx c4 in
      of_nat (push_bit 2 enc1 OR drop_bit 4 enc2) #
      (if enc3 \<noteq> 64
       then of_nat (push_bit 4 (enc2 AND 15) OR drop_bit 2 enc3) #
            (if enc4 \<noteq> 64 then [of_nat (push_bit 6 (enc3 AND 3) OR enc4)] else [])
       else []) @ decode64_groups rest)"
| "decode64_groups cs = []"

definition decode64 :: "string \<Rightarrow> byte list" where
  "decode64 input = decode64_groups (filter (\<lambda>c. c \<in> set base64_table) input)"

definition Buffer_from_base64 :: "string \<Rightarrow> byte list" where
  "Buffer_from_base64 s = decode64 s"

definition Buffer_toString_base64 :: "byte list \<Rightarrow> string" where
  "Buffer_toString_base64 bs = encode64 bs"

section \<open>The client: sending and reading\<close>

definition sendMessage ::
  "('w, 'a) EncryptedChat \<Rightarrow> string \<Rightarrow> string \<Rightarrow> 'w \<Rightarrow> (tx \<times> 'a) result \<times> 'w" where
  "sendMessage this encryptedMessage recipientPublicKey w =
     (case
        andThen (notNull (program this)) (\<lambda>P.
        andThen (notNull (chatRoomPda this)) (\<lambda>pda.
        andThen (account_chatRoom_fetch P pda w) (\<lambda>chatRoomAccount.
        andThen (toArrayLike_le 8 (messageCount chatRoomAccount)) (\<lambda>le.
        let messagePda = findProgramAddress P (message_seeds le);
            messageBytes = Buffer_from_base64 encryptedMessage in
        andThen (newPublicKey P recipientPublicKey) (\<lambda>rcpt.
        andThen (notNull (provider this)) (\<lambda>user.
          Inr (P, messageBytes, rcpt, messagePda, pda, user)))))))
      of
        Inl e \<Rightarrow> (Inl e, w)
      | Inr (P, messageBytes, rcpt, messagePda, pda, user) \<Rightarrow>
          (case rpc_sendMessage P messageBytes rcpt messagePda pda user w of
             (Inl e, w') \<Rightarrow> (Inl e, w')
           | (Inr t, w') \<Rightarrow> (Inr (t, messagePda), w')))"

text \<open>
  \<^verbatim>\<open>BN.toNumber()\<close> throws beyond 53 bits; a \<^verbatim>\<open>Date\<close> outside its range is the invalid
  date; \<^verbatim>\<open>BN.toString()\<close> is the decimal text.
\<close>

definition BN_toNumber :: "int \<Rightarrow> int result" where
  "BN_toNumber n =
     (if \<bar>n\<bar> < 2 ^ 53 then Inr n
      else Inl (Error ''Number can only safely store up to 53 bits''))"

datatype Date = Date int | InvalidDate

definition new_Date :: "int \<Rightarrow> Date" where
  "new_Date ms = (if \<bar>ms\<bar> \<le> 8640000000000000 then Date ms else InvalidDate)"

fun BN_toString :: "nat \<Rightarrow> string" where
  "BN_toString n =
     (if n < 10 then [''0123456789'' ! n]
      else BN_toString (n div 10) @ [''0123456789'' ! (n mod 10)])"

declare BN_toString.simps [simp del]

record 'a MessageView =
  sender' :: string
  recipient' :: string
  encryptedContent' :: string
  timestamp' :: Date
  messageId' :: string
  publicKey' :: 'a

definition toView :: "'a \<times> Message \<Rightarrow> 'a MessageView result" where
  "toView msg =
     (case msg of (publicKey, account) \<Rightarrow>
        andThen (BN_toNumber (timestamp account)) (\<lambda>secs.
          Inr \<lparr>sender' = toString (sender account),
               recipient' = toString (recipient account),
               encryptedContent' = Buffer_toString_base64 (encryptedContent account),
               timestamp' = new_Date (secs * 1000),
               messageId' = BN_toString (messageId account),
               publicKey' = publicKey\<rparr>))"

text \<open>\<^verbatim>\<open>Array.prototype.map\<close> with a callback that may throw: the first throw ends it.\<close>

fun mapM :: "('x \<Rightarrow> 'y result) \<Rightarrow> 'x list \<Rightarrow> 'y list result" where
  "mapM f [] = Inr []"
| "mapM f (x # xs) = andThen (f x) (\<lambda>y. andThen (mapM f xs) (\<lambda>ys. Inr (y # ys)))"

definition getMessagesForUser ::
  "('w, 'a) EncryptedChat \<Rightarrow> PublicKey \<Rightarrow> 'w \<Rightarrow> 'a MessageView list result" where
  "getMessagesForUser this userPublicKey w =
     andThen (notNull (program this)) (\<lambda>P.
     andThen (account_message_all P w) (\<lambda>messages.
       let userMessages =
             filter (\<lambda>msg. toString (recipient (snd msg)) = toString userPublicKey) messages
       in mapM toView userMessages))"

section \<open>The envelope: encryptMessage and decryptMessage\<close>

text \<open>
  A JavaScript string is a sequence of 16-bit code units.  The message that
  \<^verbatim>\<open>encryptMessage\<close> receives is such a string (\<^verbatim>\<open>cli.js\<close> joins command-line arguments,
  the demo passes a literal), and it is handed to the library as it is.  What node-forge
  calls a byte string is a JavaScript string whose code units are bytes:
  \<^verbatim>\<open>publicKey.encrypt\<close> returns one, \<^verbatim>\<open>encode64\<close> and \<^verbatim>\<open>decode64\<close> work on them, and
  \<^verbatim>\<open>privateKey.decrypt\<close> returns one, which \<^verbatim>\<open>decryptMessage\<close> returns as it is.
\<close>

type_synonym js_string = "16 word list"

definition byte_string :: "byte list \<Rightarrow> js_string" where
  "byte_string bs = map ucast bs"

text \<open>
  The RSA routines of node-forge are library code: they are the fields of this record.
  A key is parsed from its PEM text; \<^verbatim>\<open>publicKey.encrypt(m, 'RSA-OAEP')\<close> draws a random
  seed, which is an argument here; each of the four may throw.  Both methods log a caught
  error and throw it again, so the result is that of the block.
\<close>

record ('pk, 'sk) Forge =
  publicKeyFromPem :: "string \<Rightarrow> 'pk result"
  privateKeyFromPem :: "string \<Rightarrow> 'sk result"
  encrypt_RSA_OAEP :: "'pk \<Rightarrow> byte list \<Rightarrow> js_string \<Rightarrow> byte list result"
  decrypt_RSA_OAEP :: "'sk \<Rightarrow> byte list \<Rightarrow> byte list result"

definition encryptMessage ::
  "('pk, 'sk) Forge \<Rightarrow> byte list \<Rightarrow> js_string \<Rightarrow> string \<Rightarrow> string result" where
  "encryptMessage F seed message recipientPublicKeyPem =
     andThen (publicKeyFromPem F recipientPublicKeyPem) (\<lambda>publicKey.
     andThen (encrypt_RSA_OAEP F publicKey seed message) (\<lambda>encrypted.
       Inr (encode64 encrypted)))"

definition decryptMessage ::
  "('pk, 'sk) Forge \<Rightarrow> string \<Rightarrow> string \<Rightarrow> js_string result" where
  "decryptMessage F encryptedMessage privateKeyPem =
     andThen (privateKeyFromPem F privateKeyPem) (\<lambda>privateKey.
       let encrypted = decode64 encryptedMessage in
       andThen (decrypt_RSA_OAEP F privateKey encrypted) (\<lambda>decrypted.
         Inr (byte_string decrypted)))"

text \<open>
  The message that the demo sends (\<^verbatim>\<open>app/index.js\<close>; the test scripts send the same text
  with an exclamation mark): 48 ASCII characters and a padlock, U+1F512, which is the two
  code units D83D and DD12.
\<close>

definition demo_message :: js_string where
  "demo_message =
     map of_char ''Hello Bob! This is a secret message from Alice. '' @ [0xD83D, 0xDD12]"

section \<open>The receive path: printing an inbox\<close>

text \<open>
  What the \<^verbatim>\<open>read\<close> command of \<^verbatim>\<open>cli.js\<close> and the demo print for each record, one
  constructor per \<^verbatim>\<open>console\<close> statement with the values it interpolates.
  \<^verbatim>\<open>Array.prototype.forEach\<close> passes each element and its index to the callback; a throw
  of the callback would end the loop, so the loop is modelled with that exit.
\<close>

datatype console_line =
    MessageNumber nat
  | From string
  | Time Date
  | Timestamp Date
  | EncryptedContent string
  | DecryptionError error
  | Decrypted js_string
  | CouldNotDecrypt
  | FailedToDecrypt string
  | Separator

type_synonym console = "console_line list"

fun forEach_from ::
  "nat \<Rightarrow> ('x \<Rightarrow> nat \<Rightarrow> console \<times> unit result) \<Rightarrow> 'x list \<Rightarrow> console \<times> unit result" where
  "forEach_from index f [] = ([], Inr ())"
| "forEach_from index f (x # xs) =
     (case f x index of
        (out, Inl e) \<Rightarrow> (out, Inl e)
      | (out, Inr u) \<Rightarrow>
          (case forEach_from (Suc index) f xs of (out', r) \<Rightarrow> (out @ out', r)))"

definition forEach :: "('x \<Rightarrow> nat \<Rightarrow> console \<times> unit result) \<Rightarrow> 'x list \<Rightarrow> console \<times> unit result" where
  "forEach f xs = forEach_from 0 f xs"

definition read_callback ::
  "('pk, 'sk) Forge \<Rightarrow> string \<Rightarrow> 'a MessageView \<Rightarrow> nat \<Rightarrow> console \<times> unit result" where
  "read_callback F privateKey msg index =
     (let head = [MessageNumber (index + 1), From (sender' msg), Time (timestamp' msg)] in
      case decryptMessage F (encryptedContent' msg) privateKey of
        Inr decrypted \<Rightarrow> (head @ [Decrypted decrypted, Separator], Inr ())
      | Inl e \<Rightarrow> (head @ [DecryptionError e, CouldNotDecrypt, Separator], Inr ()))"

definition demo_callback ::
  "('pk, 'sk) Forge \<Rightarrow> string \<Rightarrow> 'a MessageView \<Rightarrow> nat \<Rightarrow> console \<times> unit result" where
  "demo_callback F privateKey msg index =
     (let head = [MessageNumber (index + 1), From (sender' msg), Timestamp (timestamp' msg),
                  EncryptedContent (take 100 (encryptedContent' msg) @ ''...'')] in
      case decryptMessage F (encryptedContent' msg) privateKey of
        Inr decryptedMessage \<Rightarrow> (head @ [Decrypted decryptedMessage], Inr ())
      | Inl e \<Rightarrow> (head @ [DecryptionError e, FailedToDecrypt (error_message e)], Inr ()))"

text \<open>
  The lines that report the outcome of a record, and the outcome that each loop is
  expected to report for a record: its plaintext, or the failure of that record.
\<close>

definition is_outcome :: "console_line \<Rightarrow> bool" where
  "is_outcome l = (case l of Decrypted p \<Rightarrow> True | CouldNotDecrypt \<Rightarrow> True
                   | FailedToDecrypt m \<Rightarrow> True | _ \<Rightarrow> False)"

definition read_outcome :: "('pk, 'sk) Forge \<Rightarrow> string \<Rightarrow> 'a MessageView \<Rightarrow> console_line" where
  "read_outcome F privateKey msg =
     (case decryptMessage F (encryptedContent' msg) privateKey of
        Inr decrypted \<Rightarrow> Decrypted decrypted
      | Inl e \<Rightarrow> CouldNotDecrypt)"

definition demo_outcome :: "('pk, 'sk) Forge \<Rightarrow> string \<Rightarrow> 'a MessageView \<Rightarrow> console_line" where
  "demo_outcome F privateKey msg =
     (case decryptMessage F (encryptedContent' msg) privateKey of
        Inr decrypted \<Rightarrow> Decrypted decrypted
      | Inl e \<Rightarrow> FailedToDecrypt (error_message e))"

section \<open>The key files of cli.js\<close>

text \<open>
  The file system as far as \<^verbatim>\<open>cli.js\<close> uses it: the text of each file and the set of
  directories, both by path.  \<^verbatim>\<open>existsSync\<close> holds of files and of directories;
  reading a path that holds no file throws; writing throws when the path is a directory or
  its directory is missing.  \<^verbatim>\<open>path.join\<close> puts separators between its arguments (the
  model does not resolve \<^verbatim>\<open>.\<close> and \<^verbatim>\<open>..\<close> segments); \<^verbatim>\<open>path.dirname\<close> cuts the last
  segment.  \<^verbatim>\<open>mkdirSync\<close> throws when the path holds a file.
\<close>

record filesystem =
  files :: "string \<rightharpoonup> string"
  dirs :: "string set"

definition existsSync :: "filesystem \<Rightarrow> string \<Rightarrow> bool" where
  "existsSync fs p \<longleftrightarrow> files fs p \<noteq> None \<or> p \<in> dirs fs"

definition readFileSync :: "filesystem \<Rightarrow> string \<Rightarrow> string result" where
  "readFileSync fs p =
     (case files fs p of
        Some content \<Rightarrow> Inr content
      | None \<Rightarrow> Inl (Error (if p \<in> dirs fs then ''EISDIR'' else ''ENOENT'')))"

definition path_dirname :: "string \<Rightarrow> string" where
  "path_dirname p = rev (drop 1 (dropWhile (\<lambda>c. c \<noteq> CHR ''/'') (rev p)))"

definition writeFileSync :: "filesystem \<Rightarrow> string \<Rightarrow> string \<Rightarrow> filesystem result" where
  "writeFileSync fs p content =
     (if p \<in> dirs fs then Inl (Error ''EISDIR'')
      else if path_dirname p \<notin> dirs fs then Inl (Error ''ENOENT'')
      else Inr (fs\<lparr>files := (files fs)(p \<mapsto> content)\<rparr>))"

definition mkdirSync :: "filesystem \<Rightarrow> string \<Rightarrow> filesystem result" where
  "mkdirSync fs d =
     (if files fs d \<noteq> None then Inl (Error ''EEXIST'')
      else Inr (fs\<lparr>dirs := insert d (dirs fs)\<rparr>))"

definition path_join :: "string \<Rightarrow> string \<Rightarrow> string \<Rightarrow> string" where
  "path_join a b c = a @ ''/'' @ b @ ''/'' @ c"

text \<open>
  \<^verbatim>\<open>JSON.parse\<close>, \<^verbatim>\<open>JSON.stringify\<close> and \<^verbatim>\<open>Keypair.fromSecretKey\<close> are library
  functions over JavaScript values \<open>'j\<close> and key pairs \<open>'kp\<close>; \<open>secretKey_array\<close> is
  \<^verbatim>\<open>Array.from(keypair.secretKey)\<close>.  What \<^verbatim>\<open>Keypair.generate()\<close> and
  \<^verbatim>\<open>generateKeyPair()\<close> draw at random is an argument (\<open>fresh\<close>).
\<close>

record ('j, 'kp) KeyLib =
  JSON_parse :: "string \<Rightarrow> 'j result"
  JSON_stringify :: "'j \<Rightarrow> string"
  Keypair_fromSecretKey :: "'j \<Rightarrow> 'kp result"
  secretKey_array :: "'kp \<Rightarrow> 'j"

definition loadOrCreateKeypair ::
  "('j, 'kp) KeyLib \<Rightarrow> string \<Rightarrow> 'kp \<Rightarrow> string \<Rightarrow> filesystem \<Rightarrow> 'kp result \<times> filesystem" where
  "loadOrCreateKeypair K dirname fresh filename fs =
     (let keypairPath = path_join dirname ''keys'' filename in
      if existsSync fs keypairPath then
        (andThen (readFileSync fs keypairPath) (\<lambda>content.
         andThen (JSON_parse K content) (\<lambda>keypairData.
           Keypair_fromSecretKey K keypairData)), fs)
      else
        (let keysDir = path_dirname keypairPath in
         case (if \<not> existsSync fs keysDir then mkdirSync fs keysDir else Inr fs) of
           Inl e \<Rightarrow> (Inl e, fs)
         | Inr fs1 \<Rightarrow>
             (case writeFileSync fs1 keypairPath (JSON_stringify K (secretKey_array K fresh)) of
                Inl e \<Rightarrow> (Inl e, fs1)
              | Inr fs2 \<Rightarrow> (Inr fresh, fs2))))"

definition loadOrCreateEncryptionKeys ::
  "('j, 'kp) KeyLib \<Rightarrow> string \<Rightarrow> 'j \<Rightarrow> string \<Rightarrow> filesystem \<Rightarrow> 'j result \<times> filesystem" where
  "loadOrCreateEncryptionKeys K dirname fresh filename fs =
     (let keysPath = path_join dirname ''keys'' filename in
      if existsSync fs keysPath then
        (andThen (readFileSync fs keysPath) (\<lambda>content. JSON_parse K content), fs)
      else
        (case writeFileSync fs keysPath (JSON_stringify K fresh) of
           Inl e \<Rightarrow> (Inl e, fs)
         | Inr fs1 \<Rightarrow> (Inr fresh, fs1)))"

text \<open>
  The \<^verbatim>\<open>setup\<close> command: the four loads in order; a throw ends the command (it is caught
  and reported by \<^verbatim>\<open>main\<close>).  The result is the file system that the command leaves.
\<close>

definition setup_command ::
  "('j, 'kp) KeyLib \<Rightarrow> string \<Rightarrow> 'kp \<Rightarrow> 'kp \<Rightarrow> 'j \<Rightarrow> 'j \<Rightarrow> filesystem \<Rightarrow> unit result \<times> filesystem" where
  "setup_command K dirname a b ea eb fs =
     (case loadOrCreateKeypair K dirname a ''alice.json'' fs of
        (Inl e, fs1) \<Rightarrow> (Inl e, fs1)
      | (Inr aliceKeypair, fs1) \<Rightarrow>
     (case loadOrCreateKeypair K dirname b ''bob.json'' fs1 of
        (Inl e, fs2) \<Rightarrow> (Inl e, fs2)
      | (Inr bobKeypair, fs2) \<Rightarrow>
     (case loadOrCreateEncryptionKeys K dirname ea ''alice_encryption.json'' fs2 of
        (Inl e, fs3) \<Rightarrow> (Inl e, fs3)
      | (Inr aliceEncryption, fs3) \<Rightarrow>
     (case loadOrCreateEncryptionKeys K dirname eb ''bob_encryption.json'' fs3 of
        (Inl e, fs4) \<Rightarrow> (Inl e, fs4)
      | (Inr bobEncryption, fs4) \<Rightarrow> (Inr (), fs4)))))"

section \<open>The host ledger and the on-chain program\<close>

text \<open>
  Modelled from the spec: the on-chain program
  (\<^verbatim>\<open>programs/solana-encrypted-chat/src/lib.rs\<close>) and the host store behind it, which are
  missing from the sources.  Sections 3 and 4.3 of the spec give the contract: a
  key-addressed store in which an address holds a record or does not, and which rejects a
  create-if-absent write to an occupied address; \<open>initialize\<close>, which creates the
  \<open>RoomCounter\<close> with \<open>message_count = 0\<close> at the counter address and otherwise reports
  "already exists"; \<open>append\<close>, which reads the count \<open>n\<close>, derives the message address for
  \<open>n\<close>, refuses a ciphertext above 512 bytes, writes the record with \<open>message_id = n\<close>
  unless the address is occupied, and sets the count to \<open>n + 1\<close>, all or nothing;
  \<open>scan_all\<close>, which yields every message record in an order that the store does not
  guarantee.

  The store is the list of its records in the order in which a scan yields them.  Since
  the store does not fix that order, the place at which it files a new record is an input
  of the transaction (\<open>slot\<close>), next to the clock and the transaction signature.  The
  counts are the spec's \<open>u64\<close>, as natural numbers: the spec does not say what happens
  at \<open>2 ^ 64\<close>, and the model does not bound them.
\<close>

datatype account = ChatRoomAccount ChatRoom | MessageAccount Message

type_synonym 'a ledger = "('a \<times> account) list"

record host_env =
  clock :: int
  slot :: nat
  signature :: tx

definition AlreadyInitialized :: error where
  "AlreadyInitialized = Error ''already in use''"

definition PayloadTooLarge :: error where
  "PayloadTooLarge = Error ''PayloadTooLarge''"

definition AddressCollision :: error where
  "AddressCollision = Error ''AddressCollision''"

definition AccountDoesNotExist :: error where
  "AccountDoesNotExist = Error ''Account does not exist or has no data''"

definition max_record_payload :: nat where
  "max_record_payload = 512"

text \<open>
  Modelled from the spec: the store's create-if-absent write, which is rejected when the
  address holds a record; the new record is filed at place \<open>k\<close> of the scan order.
\<close>

definition create_if_absent :: "nat \<Rightarrow> 'a \<Rightarrow> account \<Rightarrow> 'a ledger \<Rightarrow> 'a ledger option" where
  "create_if_absent k a acc L =
     (if map_of L a \<noteq> None then None else Some (take k L @ (a, acc) # drop k L))"

text \<open>
  Modelled from the spec: reading the \<open>RoomCounter\<close> at an address, which fails when the
  address is vacant or holds a record of the other kind.
\<close>

definition fetch_room :: "'a ledger \<Rightarrow> 'a \<Rightarrow> ChatRoom result" where
  "fetch_room L a =
     (case map_of L a of
        Some (ChatRoomAccount room) \<Rightarrow> Inr room
      | _ \<Rightarrow> Inl AccountDoesNotExist)"

text \<open>
  Modelled from the spec: \<open>initialize\<close> (section 4.3), which creates the counter with
  \<open>message_count = 0\<close> if absent and otherwise reports "already exists" and changes
  nothing.
\<close>

definition ledger_initialize ::
  "(byte list list \<Rightarrow> 'a) \<Rightarrow> host_env \<Rightarrow> 'a ledger \<Rightarrow> unit result \<times> 'a ledger" where
  "ledger_initialize derive env L =
     (case create_if_absent (slot env) (derive chat_room_seeds)
             (ChatRoomAccount \<lparr>messageCount = 0\<rparr>) L of
        None \<Rightarrow> (Inl AlreadyInitialized, L)
      | Some L' \<Rightarrow> (Inr (), L'))"

text \<open>
  Modelled from the spec: \<open>append\<close> (section 4.3, steps 1 to 4 and the precondition on
  the payload); it returns the assigned \<open>message_id\<close>, and a failure changes nothing.
\<close>

definition ledger_append ::
  "(byte list list \<Rightarrow> 'a) \<Rightarrow> host_env \<Rightarrow> PublicKey \<Rightarrow> PublicKey \<Rightarrow> byte list \<Rightarrow>
     'a ledger \<Rightarrow> nat result \<times> 'a ledger" where
  "ledger_append derive env sndr rcpt ciphertext L =
     (case fetch_room L (derive chat_room_seeds) of
        Inl e \<Rightarrow> (Inl e, L)
      | Inr room \<Rightarrow>
          (let n = messageCount room;
               address = derive (message_seeds (le_bytes 8 n))
           in if max_record_payload < length ciphertext then (Inl PayloadTooLarge, L)
              else
                (case create_if_absent (slot env) address
                        (MessageAccount \<lparr>sender = sndr, recipient = rcpt,
                           encryptedContent = ciphertext, timestamp = clock env,
                           messageId = n\<rparr>) L of
                   None \<Rightarrow> (Inl AddressCollision, L)
                 | Some L' \<Rightarrow>
                     (Inr n,
                      AList.update (derive chat_room_seeds)
                        (ChatRoomAccount \<lparr>messageCount = n + 1\<rparr>) L'))))"

text \<open>
  Modelled from the spec: \<open>scan_all\<close>, every message record, in the order of the store.
\<close>

definition scan_all :: "'a ledger \<Rightarrow> ('a \<times> Message) list" where
  "scan_all L = concat (map (\<lambda>(a, acc). case acc of MessageAccount m \<Rightarrow> [(a, m)] | _ \<Rightarrow> []) L)"

text \<open>
  The handle that reaches this host.  The spec's operations take no address: the host
  derives the addresses itself, with the derivation that the client uses, and does not
  consult the ones that the client passes along.  A successful transaction returns the
  signature.
\<close>

definition signed :: "host_env \<Rightarrow> 'r result \<times> 'w \<Rightarrow> tx result \<times> 'w" where
  "signed env out =
     (case out of (Inl e, w) \<Rightarrow> (Inl e, w) | (Inr r, w) \<Rightarrow> (Inr (signature env), w))"

definition host_program ::
  "(byte list list \<Rightarrow> 'a) \<Rightarrow> (string \<Rightarrow> PublicKey result) \<Rightarrow> host_env \<Rightarrow>
     ('a ledger, 'a) Program" where
  "host_program derive npk env =
     \<lparr>findProgramAddress = derive,
      newPublicKey = npk,
      rpc_initialize = (\<lambda>pda user L. signed env (ledger_initialize derive env L)),
      rpc_sendMessage = (\<lambda>bytes rcpt messagePda pda user L.
                           signed env (ledger_append derive env user rcpt bytes L)),
      account_chatRoom_fetch = (\<lambda>pda L. fetch_room L pda),
      account_message_all = (\<lambda>L. Inr (scan_all L))\<rparr>"

text \<open>
  One client call per element: the wallet that signs, the base64 text, the recipient's
  key text, and what the host decides for the transaction.  \<open>send_all\<close> runs the calls
  in order, each on the ledger that the previous one left.
\<close>

record send_call =
  env :: host_env
  wallet :: PublicKey
  encryptedMessage :: string
  recipientPublicKey :: string

definition client ::
  "(byte list list \<Rightarrow> 'a) \<Rightarrow> (string \<Rightarrow> PublicKey result) \<Rightarrow> host_env \<Rightarrow> PublicKey \<Rightarrow>
     ('a ledger, 'a) EncryptedChat" where
  "client derive npk e wal = initialize (host_program derive npk e) wal new_EncryptedChat"

fun send_all ::
  "(byte list list \<Rightarrow> 'a) \<Rightarrow> (string \<Rightarrow> PublicKey result) \<Rightarrow> send_call list \<Rightarrow> 'a ledger \<Rightarrow>
     (tx \<times> 'a) result list \<times> 'a ledger" where
  "send_all derive npk [] L = ([], L)"
| "send_all derive npk (c # cs) L =
     (case sendMessage (client derive npk (env c) (wallet c))
             (encryptedMessage c) (recipientPublicKey c) L of
        (r, L') \<Rightarrow> (case send_all derive npk cs L' of (rs, L'') \<Rightarrow> (r # rs, L'')))"

text \<open>
  What a run is observed by: the addresses that the successful calls returned, in call
  order, and the \<open>message_id\<close> of the record that an address holds.
\<close>

fun sent :: "(tx \<times> 'a) result list \<Rightarrow> 'a list" where
  "sent [] = []"
| "sent (Inl e # rs) = sent rs"
| "sent (Inr (t, pda) # rs) = pda # sent rs"

definition messageId_at :: "'a ledger \<Rightarrow> 'a \<Rightarrow> nat option" where
  "messageId_at L a =
     (case map_of L a of Some (MessageAccount m) \<Rightarrow> Some (messageId m) | _ \<Rightarrow> None)"

text \<open>
  The number that a sequence of bytes denotes when read as a little-endian integer, as
  the spec's \<open>little_endian_u64\<close> means it.
\<close>

fun little_endian_value :: "byte list \<Rightarrow> nat" where
  "little_endian_value [] = 0"
| "little_endian_value (b # bs) = unat b + 256 * little_endian_value bs"

text \<open>
  The inbox view in the spec's words: the scan filtered by recipient, in the order of the
  scan.  \<open>appended_for\<close> counts the successful calls of a run whose recipient is \<open>R\<close>.
\<close>

definition inbox :: "PublicKey \<Rightarrow> ('a \<times> Message) list \<Rightarrow> ('a \<times> Message) list" where
  "inbox R messages = filter (\<lambda>msg. recipient (snd msg) = R) messages"


section \<open>A concrete deployment\<close>

text \<open>
  The instances at which the theorems below are applied: a derivation without collisions
  (the address is the list of seeds itself), a key parser that accepts every text, two
  transactions of the host, and the client of a wallet.
\<close>

definition seeds_address :: "byte list list \<Rightarrow> byte list list" where
  "seeds_address seeds = seeds"

definition any_key :: "string \<Rightarrow> PublicKey result" where
  "any_key s = Inr (PublicKey s)"

definition env1 :: host_env where
  "env1 = \<lparr>clock = 1700000000, slot = 0, signature = ''sig1''\<rparr>"

definition env2 :: host_env where
  "env2 = \<lparr>clock = 1700000060, slot = 0, signature = ''sig2''\<rparr>"

definition alice :: PublicKey where
  "alice = PublicKey ''Alice1111''"

definition bob :: PublicKey where
  "bob = PublicKey ''Bob11111''"

definition alice_chat :: "(byte list list ledger, byte list list) EncryptedChat" where
  "alice_chat = client seeds_address any_key env1 alice"

definition room0 :: "byte list list ledger" where
  "room0 = [(chat_room_seeds, ChatRoomAccount \<lparr>messageCount = 0\<rparr>)]"

definition call1 :: send_call where
  "call1 = \<lparr>env = env1, wallet = alice, encryptedMessage = ''aGk='',
             recipientPublicKey = ''Bob11111''\<rparr>"

definition call2 :: send_call where
  "call2 = \<lparr>env = env2, wallet = alice, encryptedMessage = ''eW8='',
             recipientPublicKey = ''Bob11111''\<rparr>"

definition message0 :: Message where
  "message0 = \<lparr>sender = alice, recipient = bob, encryptedContent = [104, 105],
                timestamp = 1700000000, messageId = 0\<rparr>"

definition message1 :: Message where
  "message1 = \<lparr>sender = alice, recipient = bob, encryptedContent = [121, 111],
                timestamp = 1700000060, messageId = 1\<rparr>"

definition pda0 :: "byte list list" where
  "pda0 = [Buffer_from_utf8 ''message'', [0, 0, 0, 0, 0, 0, 0, 0]]"

definition pda1 :: "byte list list" where
  "pda1 = [Buffer_from_utf8 ''message'', [1, 0, 0, 0, 0, 0, 0, 0]]"

definition ledger1 :: "byte list list ledger" where
  "ledger1 = [(pda0, MessageAccount message0),
              (chat_room_seeds, ChatRoomAccount \<lparr>messageCount = 1\<rparr>)]"

definition ledger2 :: "byte list list ledger" where
  "ledger2 = [(pda1, MessageAccount message1), (pda0, MessageAccount message0),
              (chat_room_seeds, ChatRoomAccount \<lparr>messageCount = 2\<rparr>)]"

definition view0 :: "byte list list MessageView" where
  "view0 = \<lparr>sender' = ''Alice1111'', recipient' = ''Bob11111'', encryptedContent' = ''aGk='',
             timestamp' = Date 1700000000000, messageId' = ''0'', publicKey' = pda0\<rparr>"

definition view1 :: "byte list list MessageView" where
  "view1 = \<lparr>sender' = ''Alice1111'', recipient' = ''Bob11111'', encryptedContent' = ''eW8='',
             timestamp' = Date 1700000060000, messageId' = ''1'', publicKey' = pda1\<rparr>"

text \<open>
  A stand-in for the RSA routines: a key is a byte, read from the first character of its
  PEM text; a ciphertext is the key followed by the message, the low byte of each code
  unit combined with the key; decryption refuses a ciphertext that does not start with
  its key.
\<close>

definition pem_key :: "string \<Rightarrow> byte result" where
  "pem_key pem = (case pem of [] \<Rightarrow> Inl (Error ''Invalid PEM'') | c # cs \<Rightarrow> Inr (of_char c))"

definition tag_cipher :: "(byte, byte) Forge" where
  "tag_cipher =
     \<lparr>publicKeyFromPem = pem_key,
      privateKeyFromPem = pem_key,
      encrypt_RSA_OAEP = (\<lambda>k seed m.
         if length m \<le> 214 then Inr (k # map (\<lambda>u. ucast u XOR k) m)
         else Inl (Error ''RSAES-OAEP input message length is too long.'')),
      decrypt_RSA_OAEP = (\<lambda>k c.
         case c of
           [] \<Rightarrow> Inl (Error ''Encrypted message length is invalid.'')
         | t # body \<Rightarrow>
             if t = k then Inr (map (\<lambda>b. b XOR k) body)
             else Inl (Error ''Invalid RSAES-OAEP padding.''))\<rparr>"

text \<open>
  A key library whose JavaScript values and key pairs are their JSON texts, and a file
  system that holds the key file of one identity.
\<close>

definition plain_keylib :: "(string, string) KeyLib" where
  "plain_keylib = \<lparr>JSON_parse = Inr, JSON_stringify = (\<lambda>j. j),
                    Keypair_fromSecretKey = Inr, secretKey_array = (\<lambda>kp. kp)\<rparr>"

definition fs0 :: filesystem where
  "fs0 = \<lparr>files = [''/app/keys/alice.json'' \<mapsto> ''[1,2,3]''],
          dirs = {''/app'', ''/app/keys''}\<rparr>"

text \<open>
  A derivation into 32-byte addresses: the concatenated seeds, read as a little-endian
  number, in 256 bits.
\<close>

definition number_address :: "byte list list \<Rightarrow> 256 word" where
  "number_address seeds = of_nat (little_endian_value (concat seeds))"

section \<open>initializeChatRoom swallows every failure\<close>

text \<open>
  C9.  Whatever the initialize transaction does (it succeeds, the account already exists,
  the transport fails, the client object was never initialised), \<^verbatim>\<open>initializeChatRoom\<close>
  returns normally: the transaction id when the transaction succeeded and \<^verbatim>\<open>undefined\<close>
  otherwise.  Two failures with different errors give the same result, so the caller cannot
  tell them apart.
\<close>

theorem initializeChatRoom_never_throws:
  "(\<forall>e. fst (initializeChatRoom this w) \<noteq> Inl e) \<and>
   (\<forall>t w'. initializeChatRoom_body this w = (Inr t, w') \<longrightarrow>
        initializeChatRoom this w = (Inr (Some t), w')) \<and>
   (\<forall>e w'. initializeChatRoom_body this w = (Inl e, w') \<longrightarrow>
        initializeChatRoom this w = (Inr None, w'))"
  by (auto simp: initializeChatRoom_def split: prod.splits sum.splits)

lemmas host_simps =
  client_def initialize_def host_program_def new_EncryptedChat_def signed_def
  ledger_initialize_def ledger_append_def create_if_absent_def fetch_room_def
  seeds_address_def any_key_def

theorem initializeChatRoom_never_throws_witness:
  "initializeChatRoom_body alice_chat [] = (Inr ''sig1'', room0) \<and>
   initializeChatRoom alice_chat [] = (Inr (Some ''sig1''), room0) \<and>
   initializeChatRoom_body alice_chat room0 = (Inl AlreadyInitialized, room0) \<and>
   initializeChatRoom alice_chat room0 = (Inr None, room0)"
proof -
  have fresh: "initializeChatRoom_body alice_chat [] = (Inr ''sig1'', room0)"
    by (simp add: initializeChatRoom_body_def alice_chat_def room0_def env1_def host_simps)
  have again: "initializeChatRoom_body alice_chat room0 = (Inl AlreadyInitialized, room0)"
    by (simp add: initializeChatRoom_body_def alice_chat_def room0_def env1_def host_simps)
  from fresh again
    initializeChatRoom_never_throws [of alice_chat "[]"]
    initializeChatRoom_never_throws [of alice_chat room0]
  show ?thesis by simp
qed

section \<open>The store: creating a record\<close>

lemma map_of_insert_at:
  assumes "map_of L a = None"
  shows "map_of (take k L @ (a, v) # drop k L) = (map_of L)(a \<mapsto> v)"
proof
  fix x
  have split: "map_of L = map_of (drop k L) ++ map_of (take k L)"
    by (metis append_take_drop_id map_of_append)
  show "map_of (take k L @ (a, v) # drop k L) x = ((map_of L)(a \<mapsto> v)) x"
  proof (cases "x = a")
    case True
    from assms split have "map_of (take k L) a = None"
      by (metis map_add_None)
    with True show ?thesis by (simp add: map_add_def)
  next
    case False
    then show ?thesis by (simp add: split map_add_def split: option.splits)
  qed
qed

lemma map_of_create:
  "create_if_absent k a v L = Some L' \<Longrightarrow> map_of L' = (map_of L)(a \<mapsto> v)"
  by (auto simp: create_if_absent_def map_of_insert_at simp del: map_of_append split: if_splits)

lemma create_fresh:
  "map_of L a = None \<Longrightarrow> \<exists>L'. create_if_absent k a v L = Some L'"
  by (simp add: create_if_absent_def)

lemma create_occupied:
  "map_of L a = Some v' \<Longrightarrow> create_if_absent k a v L = None"
  by (simp add: create_if_absent_def)

lemma ledger_initialize_fresh:
  assumes "map_of L (derive chat_room_seeds) = None"
  shows "\<exists>L1. ledger_initialize derive e L = (Inr (), L1) \<and>
           map_of L1 = (map_of L)(derive chat_room_seeds \<mapsto> ChatRoomAccount \<lparr>messageCount = 0\<rparr>)"
proof -
  from create_fresh [OF assms] obtain L1 where
    c: "create_if_absent (slot e) (derive chat_room_seeds) (ChatRoomAccount \<lparr>messageCount = 0\<rparr>) L = Some L1"
    by blast
  then show ?thesis by (simp add: ledger_initialize_def map_of_create)
qed

lemma ledger_initialize_again:
  "map_of L (derive chat_room_seeds) = Some acc \<Longrightarrow>
     ledger_initialize derive e L = (Inl AlreadyInitialized, L)"
  by (simp add: ledger_initialize_def create_occupied)

lemma initializeChatRoom_client:
  "initializeChatRoom (client derive npk e wal) L =
     (case ledger_initialize derive e L of
        (Inl x, L') \<Rightarrow> (Inr None, L')
      | (Inr u, L') \<Rightarrow> (Inr (Some (signature e)), L'))"
  by (simp add: initializeChatRoom_def initializeChatRoom_body_def client_def initialize_def
        host_program_def new_EncryptedChat_def signed_def split: prod.splits sum.splits)

section \<open>initialize is idempotent\<close>

text \<open>
  C4.  On a namespace whose counter address is vacant, \<^verbatim>\<open>initializeChatRoom\<close> succeeds
  and leaves a \<open>RoomCounter\<close> with \<open>message_count = 0\<close>.  A second call, by any wallet,
  is refused by the host as "already exists" with the ledger unchanged; the client
  returns normally (\<^verbatim>\<open>undefined\<close>) and the count is still 0.
\<close>

theorem initialize_idempotent:
  "map_of L (derive chat_room_seeds) = None \<longrightarrow>
     (\<exists>L1. initializeChatRoom (client derive npk e1 w1) L = (Inr (Some (signature e1)), L1) \<and>
           fetch_room L1 (derive chat_room_seeds) = Inr \<lparr>messageCount = 0\<rparr> \<and>
           ledger_initialize derive e2 L1 = (Inl AlreadyInitialized, L1) \<and>
           initializeChatRoom (client derive npk e2 w2) L1 = (Inr None, L1) \<and>
           fetch_room (snd (initializeChatRoom (client derive npk e2 w2) L1))
             (derive chat_room_seeds) = Inr \<lparr>messageCount = 0\<rparr>)"
proof
  assume fresh: "map_of L (derive chat_room_seeds) = None"
  from ledger_initialize_fresh [of L derive e1] fresh obtain L1 where
    1: "ledger_initialize derive e1 L = (Inr (), L1)" and
    2: "map_of L1 = (map_of L)(derive chat_room_seeds \<mapsto> ChatRoomAccount \<lparr>messageCount = 0\<rparr>)"
    by blast
  from 2 have 3: "map_of L1 (derive chat_room_seeds) = Some (ChatRoomAccount \<lparr>messageCount = 0\<rparr>)"
    by simp
  have 4: "ledger_initialize derive e2 L1 = (Inl AlreadyInitialized, L1)"
    using ledger_initialize_again [of L1 derive _ e2] 3 by simp
  have "initializeChatRoom (client derive npk e1 w1) L = (Inr (Some (signature e1)), L1)"
    by (simp add: initializeChatRoom_client 1)
  moreover have "fetch_room L1 (derive chat_room_seeds) = Inr \<lparr>messageCount = 0\<rparr>"
    by (simp add: fetch_room_def 3)
  moreover have "initializeChatRoom (client derive npk e2 w2) L1 = (Inr None, L1)"
    by (simp add: initializeChatRoom_client 4)
  ultimately show "\<exists>L1. initializeChatRoom (client derive npk e1 w1) L = (Inr (Some (signature e1)), L1) \<and>
           fetch_room L1 (derive chat_room_seeds) = Inr \<lparr>messageCount = 0\<rparr> \<and>
           ledger_initialize derive e2 L1 = (Inl AlreadyInitialized, L1) \<and>
           initializeChatRoom (client derive npk e2 w2) L1 = (Inr None, L1) \<and>
           fetch_room (snd (initializeChatRoom (client derive npk e2 w2) L1))
             (derive chat_room_seeds) = Inr \<lparr>messageCount = 0\<rparr>"
    using 4 by auto
qed

theorem initialize_idempotent_witness:
  "map_of ([] :: byte list list ledger) (seeds_address chat_room_seeds) = None \<and>
   initializeChatRoom alice_chat [] = (Inr (Some ''sig1''), room0) \<and>
   fetch_room room0 chat_room_seeds = Inr \<lparr>messageCount = 0\<rparr> \<and>
   initializeChatRoom (client seeds_address any_key env2 bob) room0 = (Inr None, room0)"
proof -
  have fresh: "map_of ([] :: byte list list ledger) (seeds_address chat_room_seeds) = None"
    by simp
  have first: "initializeChatRoom alice_chat [] = (Inr (Some ''sig1''), room0)"
    by (simp add: initializeChatRoom_def initializeChatRoom_body_def alice_chat_def room0_def
          env1_def host_simps)
  from fresh first
    initialize_idempotent [of "[]" seeds_address any_key env1 alice env2 bob]
  show ?thesis
    by (simp add: alice_chat_def env1_def seeds_address_def)
qed

section \<open>Base64: decoding inverts encoding\<close>

text \<open>The masks and shifts of the codec as arithmetic on character codes.\<close>

lemma and3: "(a::nat) AND 3 = a mod 4"
  using take_bit_eq_mask [of 2 a] by (simp add: take_bit_eq_mod mask_eq_exp_minus_1)

lemma and15: "(a::nat) AND 15 = a mod 16"
  using take_bit_eq_mask [of 4 a] by (simp add: take_bit_eq_mod mask_eq_exp_minus_1)

lemma and63: "(a::nat) AND 63 = a mod 64"
  using take_bit_eq_mask [of 6 a] by (simp add: take_bit_eq_mod mask_eq_exp_minus_1)

lemma or_push: 
  assumes b: "b < 2 ^ n"
  shows "push_bit n a OR b = a * 2 ^ n + (b::nat)"
proof -
  have "push_bit n a + b = push_bit n a OR b"
  proof (rule disjunctive_add)
    fix k
    show "\<not> bit (push_bit n a) k \<or> \<not> bit b k"
    proof (cases "k < n")
      case True then show ?thesis by (simp add: bit_push_bit_iff)
    next
      case False
      then have "2 ^ n \<le> (2::nat) ^ k" by simp
      with b have "b < 2 ^ k" by linarith
      then have "\<not> bit b k" by (simp add: bit_iff_odd)
      then show ?thesis by simp
    qed
  qed
  then show ?thesis by (simp add: push_bit_eq_mult)
qed

lemma sextet2: "(b::nat) < 256 \<Longrightarrow> push_bit 4 (a AND 3) OR drop_bit 4 b = (a mod 4) * 16 + b div 16"
  using or_push [of "b div 16" 4 "a mod 4"] by (simp add: and3 drop_bit_eq_div)

lemma sextet3: "(c::nat) < 256 \<Longrightarrow> push_bit 2 (b AND 15) OR drop_bit 6 c = (b mod 16) * 4 + c div 64"
  using or_push [of "c div 64" 2 "b mod 16"] by (simp add: and15 drop_bit_eq_div)

lemma byte1: "(e2::nat) < 64 \<Longrightarrow> push_bit 2 e1 OR drop_bit 4 e2 = e1 * 4 + e2 div 16"
  using or_push [of "e2 div 16" 2 e1] by (simp add: drop_bit_eq_div)

lemma byte2: "(e3::nat) < 64 \<Longrightarrow> push_bit 4 (e2 AND 15) OR drop_bit 2 e3 = (e2 mod 16) * 16 + e3 div 4"
  using or_push [of "e3 div 4" 4 "e2 mod 16"] by (simp add: and15 drop_bit_eq_div)

lemma byte3: "(e4::nat) < 64 \<Longrightarrow> push_bit 6 (e3 AND 3) OR e4 = (e3 mod 4) * 64 + e4"
  using or_push [of e4 6 "e3 mod 4"] by (simp add: and3)


lemma index_in_nth: "distinct xs \<Longrightarrow> i < length xs \<Longrightarrow> index_in (xs ! i) xs = i"
proof (induction xs arbitrary: i)
  case Nil
  then show ?case by simp
next
  case (Cons x xs)
  show ?case
  proof (cases i)
    case 0
    then show ?thesis by simp
  next
    case (Suc j)
    with Cons.prems have "xs ! j \<in> set xs" by simp
    with Cons.prems have "xs ! j \<noteq> x" by auto
    with Cons Suc show ?thesis by simp
  qed
qed

lemma base64_table_distinct: "distinct base64_table"
  unfolding base64_table_def by simp

lemma base64_table_length: "length base64_table = 65"
  unfolding base64_table_def by simp

lemma base64Idx_charAt: "i < 65 \<Longrightarrow> base64Idx (base64_charAt i) = i"
  unfolding base64Idx_def base64_charAt_def
  by (simp add: index_in_nth base64_table_distinct base64_table_length)

lemma base64_charAt_in_table: "i < 65 \<Longrightarrow> base64_charAt i \<in> set base64_table"
  unfolding base64_charAt_def by (simp add: base64_table_length)

lemma base64_charAt_pad: "base64_charAt 64 = CHR ''=''"
  unfolding base64_charAt_def base64_table_def by simp

lemma base64Idx_pad: "base64Idx (CHR ''='') = 64"
  using base64Idx_charAt [of 64] by (simp add: base64_charAt_pad)

lemma pad_in_table: "CHR ''='' \<in> set base64_table"
  using base64_charAt_in_table [of 64] by (simp add: base64_charAt_pad)

text \<open>The four sextets of a group of three bytes, as numbers.\<close>

lemma sextet_bounds:
  fixes a b c :: nat
  assumes "a < 256" "b < 256" "c < 256"
  shows "drop_bit 2 a < 64"
    and "push_bit 4 (a AND 3) < 64"
    and "push_bit 4 (a AND 3) OR drop_bit 4 b < 64"
    and "push_bit 2 (b AND 15) < 64"
    and "push_bit 2 (b AND 15) OR drop_bit 6 c < 64"
    and "c AND 63 < 64"
proof -
  show "drop_bit 2 a < 64" using assms by (simp add: drop_bit_eq_div)
  have "push_bit 4 (a AND 3) = (a mod 4) * 16"
    by (simp only: and3 push_bit_eq_mult) simp
  moreover have "(a mod 4) * 16 < 64" by simp
  ultimately show "push_bit 4 (a AND 3) < 64" by (simp only:)
  have "(a mod 4) * 16 + b div 16 < 64" using assms by simp
  with sextet2 [OF assms(2), of a] show "push_bit 4 (a AND 3) OR drop_bit 4 b < 64"
    by (simp only:)
  have "push_bit 2 (b AND 15) = (b mod 16) * 4"
    by (simp only: and15 push_bit_eq_mult) simp
  moreover have "(b mod 16) * 4 < 64" by simp
  ultimately show "push_bit 2 (b AND 15) < 64" by (simp only:)
  have "(b mod 16) * 4 + c div 64 < 64" using assms by simp
  with sextet3 [OF assms(3), of b] show "push_bit 2 (b AND 15) OR drop_bit 6 c < 64"
    by (simp only:)
  show "c AND 63 < 64" by (simp add: and63)
qed


lemma unat_byte_lt: "unat (b :: byte) < 256"
  using unsigned_less [of b, where ?'a = nat] by simp

lemma decode_group3:
  fixes b1 b2 b3 :: byte
  defines "e1 \<equiv> drop_bit 2 (unat b1)"
      and "e2 \<equiv> push_bit 4 (unat b1 AND 3) OR drop_bit 4 (unat b2)"
      and "e3 \<equiv> push_bit 2 (unat b2 AND 15) OR drop_bit 6 (unat b3)"
      and "e4 \<equiv> unat b3 AND 63"
  shows "decode64_groups (base64_charAt e1 # base64_charAt e2 # base64_charAt e3 #
            base64_charAt e4 # rest) = b1 # b2 # b3 # decode64_groups rest"
proof -
  note lt = unat_byte_lt [of b1] unat_byte_lt [of b2] unat_byte_lt [of b3]
  have e: "e1 < 64" "e2 < 64" "e3 < 64" "e4 < 64"
    unfolding e1_def e2_def e3_def e4_def
    using sextet_bounds [OF lt] by blast+
  then have i: "base64Idx (base64_charAt e1) = e1" "base64Idx (base64_charAt e2) = e2"
    "base64Idx (base64_charAt e3) = e3" "base64Idx (base64_charAt e4) = e4"
    by (simp_all add: base64Idx_charAt)
  have v1: "e1 = unat b1 div 4" by (simp add: e1_def drop_bit_eq_div)
  have v2: "e2 = (unat b1 mod 4) * 16 + unat b2 div 16"
    unfolding e2_def by (rule sextet2 [OF lt(2)])
  have v3: "e3 = (unat b2 mod 16) * 4 + unat b3 div 64"
    unfolding e3_def by (rule sextet3 [OF lt(3)])
  have v4: "e4 = unat b3 mod 64" by (simp add: e4_def and63)
  have "push_bit 2 e1 OR drop_bit 4 e2 = e1 * 4 + e2 div 16"
    by (rule byte1 [OF e(2)])
  also have "\<dots> = unat b1" using lt unfolding v1 v2 by simp
  finally have B1: "push_bit 2 e1 OR drop_bit 4 e2 = unat b1" .
  have "push_bit 4 (e2 AND 15) OR drop_bit 2 e3 = (e2 mod 16) * 16 + e3 div 4"
    by (rule byte2 [OF e(3)])
  also have "\<dots> = unat b2" using lt unfolding v2 v3 by simp
  finally have B2: "push_bit 4 (e2 AND 15) OR drop_bit 2 e3 = unat b2" .
  have "push_bit 6 (e3 AND 3) OR e4 = (e3 mod 4) * 64 + e4"
    by (rule byte3 [OF e(4)])
  also have "\<dots> = unat b3" using lt unfolding v3 v4 by simp
  finally have B3: "push_bit 6 (e3 AND 3) OR e4 = unat b3" .
  from e have ne: "e3 \<noteq> 64" "e4 \<noteq> 64" by simp_all
  show ?thesis
    by (simp only: decode64_groups.simps Let_def i B1 B2 B3 ne) simp
qed


lemma decode_group2:
  fixes b1 b2 :: byte
  defines "e1 \<equiv> drop_bit 2 (unat b1)"
      and "e2 \<equiv> push_bit 4 (unat b1 AND 3) OR drop_bit 4 (unat b2)"
      and "e3 \<equiv> push_bit 2 (unat b2 AND 15)"
  shows "decode64_groups [base64_charAt e1, base64_charAt e2, base64_charAt e3, CHR ''='']
           = [b1, b2]"
proof -
  note lt = unat_byte_lt [of b1] unat_byte_lt [of b2] unat_byte_lt [of b2]
  have e: "e1 < 64" "e2 < 64" "e3 < 64"
    unfolding e1_def e2_def e3_def
    using sextet_bounds [OF lt] by blast+
  then have i: "base64Idx (base64_charAt e1) = e1" "base64Idx (base64_charAt e2) = e2"
    "base64Idx (base64_charAt e3) = e3"
    by (simp_all add: base64Idx_charAt)
  have v1: "e1 = unat b1 div 4" by (simp add: e1_def drop_bit_eq_div)
  have v2: "e2 = (unat b1 mod 4) * 16 + unat b2 div 16"
    unfolding e2_def by (rule sextet2 [OF lt(2)])
  have v3: "e3 = (unat b2 mod 16) * 4"
    unfolding e3_def by (simp only: and15 push_bit_eq_mult) simp
  have "push_bit 2 e1 OR drop_bit 4 e2 = e1 * 4 + e2 div 16"
    by (rule byte1 [OF e(2)])
  also have "\<dots> = unat b1" using lt unfolding v1 v2 by simp
  finally have B1: "push_bit 2 e1 OR drop_bit 4 e2 = unat b1" .
  have "push_bit 4 (e2 AND 15) OR drop_bit 2 e3 = (e2 mod 16) * 16 + e3 div 4"
    by (rule byte2 [OF e(3)])
  also have "\<dots> = unat b2" using lt unfolding v2 v3 by simp
  finally have B2: "push_bit 4 (e2 AND 15) OR drop_bit 2 e3 = unat b2" .
  from e have ne: "e3 \<noteq> 64" by simp
  show ?thesis
    by (simp only: decode64_groups.simps Let_def i B1 B2 ne base64Idx_pad) simp
qed

lemma decode_group1:
  fixes b1 :: byte
  defines "e1 \<equiv> drop_bit 2 (unat b1)"
      and "e2 \<equiv> push_bit 4 (unat b1 AND 3)"
  shows "decode64_groups [base64_charAt e1, base64_charAt e2, CHR ''='', CHR ''=''] = [b1]"
proof -
  note lt = unat_byte_lt [of b1] unat_byte_lt [of b1] unat_byte_lt [of b1]
  have e: "e1 < 64" "e2 < 64"
    unfolding e1_def e2_def
    using sextet_bounds [OF lt] by blast+
  then have i: "base64Idx (base64_charAt e1) = e1" "base64Idx (base64_charAt e2) = e2"
    by (simp_all add: base64Idx_charAt)
  have v1: "e1 = unat b1 div 4" by (simp add: e1_def drop_bit_eq_div)
  have v2: "e2 = (unat b1 mod 4) * 16"
    unfolding e2_def by (simp only: and3 push_bit_eq_mult) simp
  have "push_bit 2 e1 OR drop_bit 4 e2 = e1 * 4 + e2 div 16"
    by (rule byte1 [OF e(2)])
  also have "\<dots> = unat b1" using lt unfolding v1 v2 by simp
  finally have B1: "push_bit 2 e1 OR drop_bit 4 e2 = unat b1" .
  show ?thesis
    by (simp only: decode64_groups.simps Let_def i B1 base64Idx_pad) simp
qed

lemma decode64_groups_encode64: "decode64_groups (encode64 bs) = bs"
proof (induction bs rule: encode64.induct)
  case 1
  then show ?case by simp
next
  case (2 b1)
  show ?case by (simp only: encode64.simps Let_def decode_group1)
next
  case (3 b1 b2)
  show ?case by (simp only: encode64.simps Let_def decode_group2)
next
  case (4 b1 b2 b3 rest)
  then show ?case by (simp only: encode64.simps Let_def append_Cons append_Nil decode_group3)
qed

lemma encode64_in_table: "set (encode64 bs) \<subseteq> set base64_table"
proof (induction bs rule: encode64.induct)
  case 1
  then show ?case by simp
next
  case (2 b1)
  note lt = unat_byte_lt [of b1]
  from sextet_bounds [OF lt lt lt] pad_in_table show ?case
    by (simp only: encode64.simps Let_def) (simp add: base64_charAt_in_table)
next
  case (3 b1 b2)
  note lt = unat_byte_lt [of b1] unat_byte_lt [of b2] unat_byte_lt [of b2]
  from sextet_bounds [OF lt] pad_in_table show ?case
    by (simp only: encode64.simps Let_def) (simp add: base64_charAt_in_table)
next
  case (4 b1 b2 b3 rest)
  note lt = unat_byte_lt [of b1] unat_byte_lt [of b2] unat_byte_lt [of b3]
  from sextet_bounds [OF lt] 4 show ?case
    by (simp only: encode64.simps Let_def) (simp add: base64_charAt_in_table)
qed

lemma decode64_encode64: "decode64 (encode64 bs) = bs"
proof -
  have "filter (\<lambda>c. c \<in> set base64_table) (encode64 bs) = encode64 bs"
    using encode64_in_table [of bs] by (auto simp: filter_id_conv)
  then show ?thesis by (simp add: decode64_def decode64_groups_encode64)
qed

section \<open>Sending: what one call does to the ledger\<close>

lemma sendMessage_client:
  "sendMessage (client derive npk e wal) enc rcpt L =
     (case fetch_room L (derive chat_room_seeds) of
        Inl err \<Rightarrow> (Inl err, L)
      | Inr room \<Rightarrow>
          (case toArrayLike_le 8 (messageCount room) of
             Inl err \<Rightarrow> (Inl err, L)
           | Inr le \<Rightarrow>
               (case npk rcpt of
                  Inl err \<Rightarrow> (Inl err, L)
                | Inr R \<Rightarrow>
                    (case ledger_append derive e wal R (Buffer_from_base64 enc) L of
                       (Inl err, L') \<Rightarrow> (Inl err, L')
                     | (Inr n, L') \<Rightarrow> (Inr (signature e, derive (message_seeds le)), L')))))"
  by (simp add: sendMessage_def client_def initialize_def host_program_def new_EncryptedChat_def
        signed_def andThen_def notNull_def split: sum.splits prod.splits)

lemma ledger_append_failed:
  "ledger_append derive e sndr R bytes L = (Inl err, L') \<Longrightarrow> L' = L"
  by (auto simp: ledger_append_def Let_def split: sum.splits option.splits if_splits)

lemma sendMessage_failed:
  "sendMessage (client derive npk e wal) enc rcpt L = (Inl err, L') \<Longrightarrow> L' = L"
  by (auto simp: sendMessage_client split: sum.splits prod.splits dest: ledger_append_failed)

lemma ledger_append_done:
  assumes "ledger_append derive e sndr R bytes L = (Inr n, L')"
  shows "\<exists>room L1.
           fetch_room L (derive chat_room_seeds) = Inr room \<and> n = messageCount room \<and>
           length bytes \<le> max_record_payload \<and>
           map_of L (derive (message_seeds (le_bytes 8 n))) = None \<and>
           create_if_absent (slot e) (derive (message_seeds (le_bytes 8 n)))
             (MessageAccount \<lparr>sender = sndr, recipient = R, encryptedContent = bytes,
                timestamp = clock e, messageId = n\<rparr>) L = Some L1 \<and>
           L' = AList.update (derive chat_room_seeds) (ChatRoomAccount \<lparr>messageCount = n + 1\<rparr>) L1"
  using assms
  by (auto simp: ledger_append_def Let_def create_if_absent_def
           split: sum.splits option.splits if_splits)


lemma fetch_room_Inr:
  "fetch_room L a = Inr room \<longleftrightarrow> map_of L a = Some (ChatRoomAccount room)"
  by (auto simp: fetch_room_def split: option.splits account.splits)

lemma ledger_append_map:
  assumes "ledger_append derive e sndr R bytes L = (Inr n, L')"
  defines "a \<equiv> derive (message_seeds (le_bytes 8 n))"
      and "ra \<equiv> derive chat_room_seeds"
  shows "map_of L ra = Some (ChatRoomAccount \<lparr>messageCount = n\<rparr>)"
    and "map_of L a = None"
    and "map_of L' =
           (map_of L)(a \<mapsto> MessageAccount \<lparr>sender = sndr, recipient = R,
                encryptedContent = bytes, timestamp = clock e, messageId = n\<rparr>,
              ra \<mapsto> ChatRoomAccount \<lparr>messageCount = n + 1\<rparr>)"
proof -
  from ledger_append_done [OF assms(1)] obtain room L1 where
    r: "fetch_room L ra = Inr room" and n: "n = messageCount room" and
    v: "map_of L a = None" and
    c: "create_if_absent (slot e) a
             (MessageAccount \<lparr>sender = sndr, recipient = R, encryptedContent = bytes,
                timestamp = clock e, messageId = n\<rparr>) L = Some L1" and
    u: "L' = AList.update ra (ChatRoomAccount \<lparr>messageCount = n + 1\<rparr>) L1"
    unfolding a_def ra_def by blast
  from r n show "map_of L ra = Some (ChatRoomAccount \<lparr>messageCount = n\<rparr>)"
    by (simp add: fetch_room_Inr)
  from v show "map_of L a = None" .
  from u map_of_create [OF c] show "map_of L' =
           (map_of L)(a \<mapsto> MessageAccount \<lparr>sender = sndr, recipient = R,
                encryptedContent = bytes, timestamp = clock e, messageId = n\<rparr>,
              ra \<mapsto> ChatRoomAccount \<lparr>messageCount = n + 1\<rparr>)"
    by (simp add: update_conv')
qed

lemma toArrayLike_le_Inr:
  "toArrayLike_le len n = Inr le \<longleftrightarrow> n < 256 ^ len \<and> le = le_bytes len n"
  by (auto simp: toArrayLike_le_def)

lemma sendMessage_done:
  assumes "sendMessage (client derive npk e wal) enc rcpt L = (Inr (t, pda), L')"
  defines "ra \<equiv> derive chat_room_seeds"
  shows "\<exists>n R. fetch_room L ra = Inr \<lparr>messageCount = n\<rparr> \<and> n < 2 ^ 64 \<and>
           npk rcpt = Inr R \<and> t = signature e \<and>
           pda = derive (message_seeds (le_bytes 8 n)) \<and>
           ledger_append derive e wal R (Buffer_from_base64 enc) L = (Inr n, L')"
proof -
  from assms(1) obtain room le R n where
    r: "fetch_room L ra = Inr room" and
    l: "toArrayLike_le 8 (messageCount room) = Inr le" and
    k: "npk rcpt = Inr R" and
    a: "ledger_append derive e wal R (Buffer_from_base64 enc) L = (Inr n, L')" and
    p: "pda = derive (message_seeds le)" and t: "t = signature e"
    unfolding ra_def
    by (auto simp: sendMessage_client split: sum.splits prod.splits)
  from ledger_append_map(1) [OF a] r have n: "messageCount room = n" "room = \<lparr>messageCount = n\<rparr>"
    by (auto simp: fetch_room_Inr ra_def)
  with l have "n < 2 ^ 64" "le = le_bytes 8 n"
    by (simp_all add: toArrayLike_le_Inr)
  with r k a p t n show ?thesis by auto
qed


lemma send_all_run:
  assumes "fetch_room L0 (derive chat_room_seeds) = Inr \<lparr>messageCount = c\<rparr>"
      and "send_all derive npk cs L0 = (rs, L)"
  shows "map (messageId_at L) (sent rs) = map Some [c ..< c + length (sent rs)] \<and>
         fetch_room L (derive chat_room_seeds) = Inr \<lparr>messageCount = c + length (sent rs)\<rparr> \<and>
         (\<forall>x. x \<noteq> derive chat_room_seeds \<and> map_of L0 x \<noteq> None \<longrightarrow> map_of L x = map_of L0 x)"
  using assms
proof (induction cs arbitrary: L0 c rs L)
  case Nil
  then show ?case by simp
next
  case (Cons call cs)
  let ?ra = "derive chat_room_seeds"
  obtain r L1 where step:
    "sendMessage (client derive npk (env call) (wallet call))
       (encryptedMessage call) (recipientPublicKey call) L0 = (r, L1)"
    by (cases "sendMessage (client derive npk (env call) (wallet call))
       (encryptedMessage call) (recipientPublicKey call) L0") 
  obtain rs' where rest: "send_all derive npk cs L1 = (rs', L)" and rs: "rs = r # rs'"
    using Cons.prems(2) step by (auto split: prod.splits)
  show ?case
  proof (cases r)
    case (Inl err)
    with step have "L1 = L0" by (auto dest: sendMessage_failed)
    with Cons.IH [OF _ rest, of c] Cons.prems(1) rs Inl show ?thesis by simp
  next
    case (Inr ok)
    obtain t pda where ok: "ok = (t, pda)" by (cases ok)
    from sendMessage_done [OF step [unfolded Inr ok]] obtain n R where
      f: "fetch_room L0 ?ra = Inr \<lparr>messageCount = n\<rparr>" and
      p: "pda = derive (message_seeds (le_bytes 8 n))" and
      a: "ledger_append derive (env call) (wallet call) R
            (Buffer_from_base64 (encryptedMessage call)) L0 = (Inr n, L1)"
      by blast
    from f Cons.prems(1) have n: "n = c" by simp
    note m = ledger_append_map [OF a, folded p]
    from m(1,2) have ne: "pda \<noteq> ?ra" by auto
    from m(3) have room1: "fetch_room L1 ?ra = Inr \<lparr>messageCount = Suc c\<rparr>"
      by (simp add: fetch_room_Inr n)
    from m(3) ne have at1: "messageId_at L1 pda = Some c"
      by (simp add: messageId_at_def n)
    from m(3) ne have occ: "map_of L1 pda \<noteq> None" by simp
    from m(2,3) have keep1: "\<forall>x. x \<noteq> ?ra \<and> map_of L0 x \<noteq> None \<longrightarrow> map_of L1 x = map_of L0 x"
      by auto
    from Cons.IH [OF room1 rest] have
      ids: "map (messageId_at L) (sent rs') = map Some [Suc c ..< Suc c + length (sent rs')]" and
      cnt: "fetch_room L ?ra = Inr \<lparr>messageCount = Suc c + length (sent rs')\<rparr>" and
      keep: "\<forall>x. x \<noteq> ?ra \<and> map_of L1 x \<noteq> None \<longrightarrow> map_of L x = map_of L1 x"
      by blast+
    from keep ne occ have "map_of L pda = map_of L1 pda" by blast
    with at1 have at: "messageId_at L pda = Some c" by (simp add: messageId_at_def)
    have "[c ..< c + Suc (length (sent rs'))] = c # [Suc c ..< Suc c + length (sent rs')]"
      using upt_conv_Cons [of c "c + Suc (length (sent rs'))"] by simp
    with ids at cnt keep keep1 show ?thesis
      by (simp add: rs Inr ok)
  qed
qed

lemma le_bytes_numeral:
  "le_bytes (numeral k) n = of_nat (n mod 256) # le_bytes (pred_numeral k) (n div 256)"
  by (simp only: numeral_eq_Suc [of k] le_bytes.simps)

section \<open>The concrete deployment, evaluated\<close>

lemma encode_hi: "encode64 [104, 105] = ''aGk=''"
  by (simp add: base64_charAt_def base64_table_def drop_bit_eq_div push_bit_eq_mult and3 and15)

lemma encode_yo: "encode64 [121, 111] = ''eW8=''"
  by (simp add: base64_charAt_def base64_table_def drop_bit_eq_div push_bit_eq_mult and3 and15)

lemma decode_hi: "Buffer_from_base64 ''aGk='' = [104, 105]"
  using decode64_encode64 [of "[104, 105]"] by (simp only: encode_hi Buffer_from_base64_def)

lemma decode_yo: "Buffer_from_base64 ''eW8='' = [121, 111]"
  using decode64_encode64 [of "[121, 111]"] by (simp only: encode_yo Buffer_from_base64_def)

lemmas concrete_simps =
  sendMessage_client ledger_append_def create_if_absent_def fetch_room_def
  toArrayLike_le_def le_bytes_numeral message_seeds_def chat_room_seeds_def Buffer_from_utf8_def
  seeds_address_def any_key_def env1_def env2_def alice_def bob_def
  room0_def ledger1_def ledger2_def pda0_def pda1_def message0_def message1_def
  call1_def call2_def max_record_payload_def

lemma send1: "sendMessage (client seeds_address any_key env1 alice) ''aGk='' ''Bob11111'' room0
               = (Inr (''sig1'', pda0), ledger1)"
  by (simp add: concrete_simps decode_hi)

lemma send2: "sendMessage (client seeds_address any_key env2 alice) ''eW8='' ''Bob11111'' ledger1
               = (Inr (''sig2'', pda1), ledger2)"
  by (simp add: concrete_simps decode_yo)

lemma run2: "send_all seeds_address any_key [call1, call2] room0 =
              ([Inr (''sig1'', pda0), Inr (''sig2'', pda1)], ledger2)"
  using send1 send2 by (simp add: call1_def call2_def)

section \<open>Message ids count the appends\<close>

text \<open>
  C2.  From a namespace whose counter is 0, run any sequence of \<^verbatim>\<open>sendMessage\<close> calls,
  each on the ledger that the previous one left.  The records at the addresses that the
  successful calls returned carry the message ids \<open>0, 1, \<dots>, N - 1\<close> in call order,
  where \<open>N\<close> is the number of successful calls, and the counter is \<open>N\<close> afterwards.
  For a single successful call, the id of the new record is the count that the ledger
  held when the call was made, and the count is one more afterwards.
\<close>

theorem message_ids_sequential:
  "(fetch_room L0 (derive chat_room_seeds) = Inr \<lparr>messageCount = 0\<rparr> \<and>
    send_all derive npk cs L0 = (rs, L) \<longrightarrow>
      map (messageId_at L) (sent rs) = map Some [0 ..< length (sent rs)] \<and>
      fetch_room L (derive chat_room_seeds) = Inr \<lparr>messageCount = length (sent rs)\<rparr>) \<and>
   (sendMessage (client derive npk e wal) enc rcpt L1 = (Inr (t, pda), L2) \<longrightarrow>
      (\<exists>n. fetch_room L1 (derive chat_room_seeds) = Inr \<lparr>messageCount = n\<rparr> \<and>
           messageId_at L2 pda = Some n \<and>
           fetch_room L2 (derive chat_room_seeds) = Inr \<lparr>messageCount = n + 1\<rparr>))"
proof (intro conjI impI)
  assume a: "fetch_room L0 (derive chat_room_seeds) = Inr \<lparr>messageCount = 0\<rparr> \<and>
    send_all derive npk cs L0 = (rs, L)"
  from send_all_run [of L0 derive 0 npk cs rs L] a
  show "map (messageId_at L) (sent rs) = map Some [0 ..< length (sent rs)]"
    and "fetch_room L (derive chat_room_seeds) = Inr \<lparr>messageCount = length (sent rs)\<rparr>"
    by simp_all
next
  assume s: "sendMessage (client derive npk e wal) enc rcpt L1 = (Inr (t, pda), L2)"
  from sendMessage_done [OF s] obtain n R where
    f: "fetch_room L1 (derive chat_room_seeds) = Inr \<lparr>messageCount = n\<rparr>" and
    p: "pda = derive (message_seeds (le_bytes 8 n))" and
    a: "ledger_append derive e wal R (Buffer_from_base64 enc) L1 = (Inr n, L2)"
    by blast
  note m = ledger_append_map [OF a, folded p]
  from m(1,2) have ne: "pda \<noteq> derive chat_room_seeds" by auto
  from m(3) ne have "messageId_at L2 pda = Some n"
    by (simp add: messageId_at_def)
  moreover from m(3) have "fetch_room L2 (derive chat_room_seeds) = Inr \<lparr>messageCount = n + 1\<rparr>"
    by (simp add: fetch_room_Inr)
  ultimately show "\<exists>n. fetch_room L1 (derive chat_room_seeds) = Inr \<lparr>messageCount = n\<rparr> \<and>
           messageId_at L2 pda = Some n \<and>
           fetch_room L2 (derive chat_room_seeds) = Inr \<lparr>messageCount = n + 1\<rparr>"
    using f by blast
qed

theorem message_ids_sequential_witness:
  "fetch_room room0 chat_room_seeds = Inr \<lparr>messageCount = 0\<rparr> \<and>
   send_all seeds_address any_key [call1, call2] room0 =
     ([Inr (''sig1'', pda0), Inr (''sig2'', pda1)], ledger2) \<and>
   map (messageId_at ledger2) [pda0, pda1] = [Some 0, Some 1] \<and>
   fetch_room ledger2 chat_room_seeds = Inr \<lparr>messageCount = 2\<rparr> \<and>
   sendMessage (client seeds_address any_key env2 alice) ''eW8='' ''Bob11111'' ledger1
     = (Inr (''sig2'', pda1), ledger2) \<and>
   fetch_room ledger1 chat_room_seeds = Inr \<lparr>messageCount = 1\<rparr> \<and>
   messageId_at ledger2 pda1 = Some 1"
proof -
  have r0: "fetch_room room0 (seeds_address chat_room_seeds) = Inr \<lparr>messageCount = 0\<rparr>"
    by (simp add: room0_def fetch_room_def seeds_address_def)
  have r1: "fetch_room ledger1 chat_room_seeds = Inr \<lparr>messageCount = 1\<rparr>"
    by (simp add: concrete_simps)
  have up: "[0 ..< 2] = [0, Suc 0]" by (simp add: upt_rec)
  from r0 r1 run2 send2
    message_ids_sequential [of room0 seeds_address any_key "[call1, call2]"
      "[Inr (''sig1'', pda0), Inr (''sig2'', pda1)]" ledger2 env2 alice "''eW8=''" "''Bob11111''"
      ledger1 "''sig2''" pda1 ledger2]
  show ?thesis
    by (simp add: seeds_address_def up)
qed

section \<open>Address derivation\<close>

lemma length_le_bytes: "length (le_bytes k n) = k"
  by (induction k arbitrary: n) simp_all

lemma value_le_bytes: "little_endian_value (le_bytes k n) = n mod 256 ^ k"
proof (induction k arbitrary: n)
  case 0
  then show ?case by simp
next
  case (Suc k)
  have "unat (of_nat (n mod 256) :: byte) = n mod 256"
    by (simp add: unat_of_nat)
  with Suc show ?case
    by (simp add: mod_mult2_eq)
qed

lemma le_bytes_inj:
  assumes "n < 256 ^ k" "m < 256 ^ k" "le_bytes k n = le_bytes k m"
  shows "n = m"
proof -
  from assms(3) have "little_endian_value (le_bytes k n) = little_endian_value (le_bytes k m)"
    by simp
  with assms(1,2) show ?thesis by (simp add: value_le_bytes)
qed

lemma chat_room_bytes: "Buffer_from_utf8 ''chat_room'' = [99, 104, 97, 116, 95, 114, 111, 111, 109]"
  by (simp add: Buffer_from_utf8_def)

lemma message_bytes: "Buffer_from_utf8 ''message'' = [109, 101, 115, 115, 97, 103, 101]"
  by (simp add: Buffer_from_utf8_def)

lemma value_append:
  "little_endian_value (xs @ ys) =
     little_endian_value xs + 256 ^ length xs * little_endian_value ys"
  by (induction xs) (simp_all add: algebra_simps)

lemma value_bound: "little_endian_value bs < 256 ^ length bs"
proof (induction bs)
  case Nil
  then show ?case by simp
next
  case (Cons b bs)
  have "unat b < 256"
    using unsigned_less [of b, where ?'a = nat] by simp
  moreover from Cons have "little_endian_value bs + 1 \<le> 256 ^ length bs" by simp
  then have "256 * (little_endian_value bs + 1) \<le> 256 * 256 ^ length bs"
    by (rule mult_le_mono2)
  ultimately show ?case by simp
qed

lemma number_address_messages:
  "inj_on number_address
     {[[109, 101, 115, 115, 97, 103, 101], le_bytes 8 k] | k. k < 2 ^ 64}"
proof (rule inj_onI)
  fix x y
  assume x: "x \<in> {[[109, 101, 115, 115, 97, 103, 101], le_bytes 8 k] | k. k < 2 ^ 64}"
     and y: "y \<in> {[[109, 101, 115, 115, 97, 103, 101], le_bytes 8 k] | k. k < 2 ^ 64}"
     and e: "number_address x = number_address y"
  let ?tag = "[109, 101, 115, 115, 97, 103, 101] :: byte list"
  from x obtain n where n: "x = [?tag, le_bytes 8 n]" "n < 2 ^ 64" by blast
  from y obtain m where m: "y = [?tag, le_bytes 8 m]" "m < 2 ^ 64" by blast
  let ?V = "little_endian_value ?tag"
  have V: "?V < 256 ^ 7" using value_bound [of ?tag] by simp
  have tag: "length ?tag = 7" by simp
  have val: "little_endian_value (?tag @ le_bytes 8 k) = ?V + 256 ^ 7 * k" if "k < 2 ^ 64" for k
  proof -
    have "little_endian_value (le_bytes 8 k) = k"
      using that by (simp add: value_le_bytes)
    then show ?thesis
      by (simp only: value_append tag)
  qed
  have cx: "concat x = ?tag @ le_bytes 8 n" using n by simp
  have cy: "concat y = ?tag @ le_bytes 8 m" using m by simp
  have vn: "little_endian_value (concat x) = ?V + 256 ^ 7 * n"
    by (simp only: cx val [OF n(2)])
  have vm: "little_endian_value (concat y) = ?V + 256 ^ 7 * m"
    by (simp only: cy val [OF m(2)])
  have bn: "?V + 256 ^ 7 * n < 2 ^ 256" using V n(2) by simp
  have bm: "?V + 256 ^ 7 * m < 2 ^ 256" using V m(2) by simp
  have u: "unat (of_nat a :: 256 word) = a" if "a < 2 ^ 256" for a
    using that by (simp add: unat_of_nat)
  from e have "(of_nat (?V + 256 ^ 7 * n) :: 256 word) = of_nat (?V + 256 ^ 7 * m)"
    by (simp only: number_address_def vn vm)
  then have "unat (of_nat (?V + 256 ^ 7 * n) :: 256 word) = unat (of_nat (?V + 256 ^ 7 * m) :: 256 word)"
    by (rule arg_cong)
  then have "?V + 256 ^ 7 * n = ?V + 256 ^ 7 * m"
    by (simp only: u [OF bn] u [OF bm])
  then have "n = m" by simp
  with n m show "x = y" by simp
qed


text \<open>
  C5.  The tag \<^verbatim>\<open>"chat_room"\<close> is the bytes 99, 104, 97, 116, 95, 114, 111, 111, 109 and
  the tag \<^verbatim>\<open>"message"\<close> the bytes 109, 101, 115, 115, 97, 103, 101.  The counter
  address is derived from the single seed \<^verbatim>\<open>"chat_room"\<close>.  The address that a
  successful \<^verbatim>\<open>sendMessage\<close> returns is derived from the seed \<^verbatim>\<open>"message"\<close> followed
  by the count \<open>n\<close> that it fetched, as 8 bytes that denote \<open>n\<close> in little-endian
  order.  The seeds of two different counts below \<open>2 ^ 64\<close> differ; so do their
  addresses when the derivation has no collision among the seeds of messages.
  Derivation is a function of the seeds: equal seeds have equal addresses.
\<close>

theorem address_derivation:
  "Buffer_from_utf8 ''chat_room'' = [99, 104, 97, 116, 95, 114, 111, 111, 109] \<and>
   Buffer_from_utf8 ''message'' = [109, 101, 115, 115, 97, 103, 101] \<and>
   chatRoomPda (initialize P wal this) = Some (findProgramAddress P [[99, 104, 97, 116, 95, 114, 111, 111, 109]]) \<and>
   (sendMessage (initialize P wal this) enc rcpt w = (Inr (t, pda), w') \<longrightarrow>
      (\<exists>room. account_chatRoom_fetch P (findProgramAddress P [[99, 104, 97, 116, 95, 114, 111, 111, 109]]) w = Inr room \<and>
              messageCount room < 2 ^ 64 \<and>
              pda = findProgramAddress P [[109, 101, 115, 115, 97, 103, 101], le_bytes 8 (messageCount room)])) \<and>
   length (le_bytes 8 n) = 8 \<and>
   (n < 2 ^ 64 \<longrightarrow> little_endian_value (le_bytes 8 n) = n) \<and>
   (n < 2 ^ 64 \<and> m < 2 ^ 64 \<and> n \<noteq> m \<longrightarrow>
      [[109, 101, 115, 115, 97, 103, 101], le_bytes 8 n] \<noteq> [[109, 101, 115, 115, 97, 103, 101], le_bytes 8 m]) \<and>
   (inj_on (findProgramAddress P) {[[109, 101, 115, 115, 97, 103, 101], le_bytes 8 k] | k. k < 2 ^ 64} \<and>
    n < 2 ^ 64 \<and> m < 2 ^ 64 \<and> n \<noteq> m \<longrightarrow>
      findProgramAddress P [[109, 101, 115, 115, 97, 103, 101], le_bytes 8 n] \<noteq> findProgramAddress P [[109, 101, 115, 115, 97, 103, 101], le_bytes 8 m])"
proof (intro conjI impI)
  show "Buffer_from_utf8 ''chat_room'' = [99, 104, 97, 116, 95, 114, 111, 111, 109]"
    by (rule chat_room_bytes)
  show "Buffer_from_utf8 ''message'' = [109, 101, 115, 115, 97, 103, 101]"
    by (rule message_bytes)
  show "chatRoomPda (initialize P wal this) = Some (findProgramAddress P [[99, 104, 97, 116, 95, 114, 111, 111, 109]])"
    by (simp add: initialize_def chat_room_seeds_def chat_room_bytes)
next
  assume "sendMessage (initialize P wal this) enc rcpt w = (Inr (t, pda), w')"
  then have "\<exists>room. account_chatRoom_fetch P (findProgramAddress P chat_room_seeds) w = Inr room \<and>
              messageCount room < 2 ^ 64 \<and>
              pda = findProgramAddress P (message_seeds (le_bytes 8 (messageCount room)))"
    by (auto simp: sendMessage_def initialize_def andThen_def notNull_def toArrayLike_le_def
          split: sum.splits prod.splits if_splits)
  then show "\<exists>room. account_chatRoom_fetch P (findProgramAddress P [[99, 104, 97, 116, 95, 114, 111, 111, 109]]) w = Inr room \<and>
              messageCount room < 2 ^ 64 \<and>
              pda = findProgramAddress P [[109, 101, 115, 115, 97, 103, 101], le_bytes 8 (messageCount room)]"
    by (simp only: chat_room_seeds_def message_seeds_def chat_room_bytes message_bytes)
next
  show "length (le_bytes 8 n) = 8" by (rule length_le_bytes)
next
  assume "n < 2 ^ 64"
  then show "little_endian_value (le_bytes 8 n) = n" by (simp add: value_le_bytes)
next
  assume a: "n < 2 ^ 64 \<and> m < 2 ^ 64 \<and> n \<noteq> m"
  then have "le_bytes 8 n \<noteq> le_bytes 8 m"
    using le_bytes_inj [of n 8 m] by auto
  then show "[[109, 101, 115, 115, 97, 103, 101], le_bytes 8 n] \<noteq> [[109, 101, 115, 115, 97, 103, 101], le_bytes 8 m]"
    by simp
next
  assume a: "inj_on (findProgramAddress P) {[[109, 101, 115, 115, 97, 103, 101], le_bytes 8 k] | k. k < 2 ^ 64} \<and>
    n < 2 ^ 64 \<and> m < 2 ^ 64 \<and> n \<noteq> m"
  then have "le_bytes 8 n \<noteq> le_bytes 8 m"
    using le_bytes_inj [of n 8 m] by auto
  then have ne: "[[109, 101, 115, 115, 97, 103, 101], le_bytes 8 n] \<noteq> [[109, 101, 115, 115, 97, 103, 101], le_bytes 8 m]"
    by simp
  from a have "[[109, 101, 115, 115, 97, 103, 101], le_bytes 8 n] \<in> {[[109, 101, 115, 115, 97, 103, 101], le_bytes 8 k] | k. k < 2 ^ 64}"
    "[[109, 101, 115, 115, 97, 103, 101], le_bytes 8 m] \<in> {[[109, 101, 115, 115, 97, 103, 101], le_bytes 8 k] | k. k < 2 ^ 64}"
    by blast+
  with a ne show "findProgramAddress P [[109, 101, 115, 115, 97, 103, 101], le_bytes 8 n] \<noteq> findProgramAddress P [[109, 101, 115, 115, 97, 103, 101], le_bytes 8 m]"
    by (meson inj_onD)
qed

theorem address_derivation_witness:
  "sendMessage (initialize (host_program seeds_address any_key env2) alice new_EncryptedChat)
      ''eW8='' ''Bob11111'' ledger1 = (Inr (''sig2'', pda1), ledger2) \<and>
   fetch_room ledger1 [[99, 104, 97, 116, 95, 114, 111, 111, 109]] = Inr \<lparr>messageCount = 1\<rparr> \<and>
   pda1 = [[109, 101, 115, 115, 97, 103, 101], [1, 0, 0, 0, 0, 0, 0, 0]] \<and>
   le_bytes 8 258 = [2, 1, 0, 0, 0, 0, 0, 0] \<and>
   little_endian_value (le_bytes 8 258) = 258 \<and>
   (0::nat) < 2 ^ 64 \<and> (1::nat) < 2 ^ 64 \<and> (0::nat) \<noteq> 1 \<and>
   number_address [[109, 101, 115, 115, 97, 103, 101], le_bytes 8 0] \<noteq> number_address [[109, 101, 115, 115, 97, 103, 101], le_bytes 8 1]"
proof -
  have s: "sendMessage (initialize (host_program seeds_address any_key env2) alice new_EncryptedChat)
      ''eW8='' ''Bob11111'' ledger1 = (Inr (''sig2'', pda1), ledger2)"
    using send2 by (simp add: client_def)
  have P: "findProgramAddress (host_program seeds_address any_key env2) = seeds_address"
    "account_chatRoom_fetch (host_program seeds_address any_key env2) = (\<lambda>pda L. fetch_room L pda)"
    "findProgramAddress (host_program number_address any_key env2) = number_address"
    by (simp_all add: host_program_def)
  have r1: "fetch_room ledger1 [[99, 104, 97, 116, 95, 114, 111, 111, 109]] = Inr \<lparr>messageCount = 1\<rparr>"
    by (simp add: concrete_simps)
  have p1: "pda1 = [[109, 101, 115, 115, 97, 103, 101], [1, 0, 0, 0, 0, 0, 0, 0]]"
    by (simp add: pda1_def message_bytes)
  have l: "le_bytes 8 258 = [2, 1, 0, 0, 0, 0, 0, 0]"
    by (simp add: le_bytes_numeral)
  have b: "(258::nat) < 2 ^ 64" "(0::nat) < 2 ^ 64" "(1::nat) < 2 ^ 64" "(0::nat) \<noteq> 1"
    by simp_all
  note A = address_derivation [of "host_program seeds_address any_key env2" alice new_EncryptedChat
      "''eW8=''" "''Bob11111''" ledger1 "''sig2''" pda1 ledger2 258 0]
  note B = address_derivation [of "host_program number_address any_key env2" alice new_EncryptedChat
      "''eW8=''" "''Bob11111''" "[]" "''sig2''" 0 "[]" 0 1, unfolded P]
  from A b have v: "little_endian_value (le_bytes 8 258) = 258" by blast
  from B number_address_messages b
  have d: "number_address [[109, 101, 115, 115, 97, 103, 101], le_bytes 8 0] \<noteq> number_address [[109, 101, 115, 115, 97, 103, 101], le_bytes 8 1]"
    by blast
  from s r1 p1 l v b d show ?thesis by blast
qed

section \<open>Reading an inbox\<close>

lemma mapM_Inr_D: "mapM f xs = Inr ys \<Longrightarrow> list_all2 (\<lambda>y x. f x = Inr y) ys xs"
proof (induction xs arbitrary: ys)
  case Nil
  then show ?case by simp
next
  case (Cons x xs)
  from Cons.prems obtain y zs where "f x = Inr y" "mapM f xs = Inr zs" "ys = y # zs"
    by (auto simp: andThen_def split: sum.splits)
  with Cons.IH [of zs] show ?case by simp
qed

lemma mapM_Inr_I: "list_all2 (\<lambda>y x. f x = Inr y) ys xs \<Longrightarrow> mapM f xs = Inr ys"
  by (induction ys xs rule: list_all2_induct) (simp_all add: andThen_def)

lemma mapM_Inr_iff: "mapM f xs = Inr ys \<longleftrightarrow> list_all2 (\<lambda>y x. f x = Inr y) ys xs"
  using mapM_Inr_D mapM_Inr_I by blast




lemma toString_eq: "toString a = toString b \<longleftrightarrow> a = b"
  by (cases a; cases b) simp

lemma getMessagesForUser_initialized:
  "getMessagesForUser (initialize P wal this) R w =
     andThen (account_message_all P w) (\<lambda>messages. mapM toView (inbox R messages))"
  by (simp add: getMessagesForUser_def initialize_def notNull_def andThen_def inbox_def toString_eq)



lemma scan_all_append: "scan_all (xs @ ys) = scan_all xs @ scan_all ys"
  by (simp add: scan_all_def)

lemma scan_all_Cons_message: "scan_all ((a, MessageAccount m) # L) = (a, m) # scan_all L"
  by (simp add: scan_all_def)

lemma scan_all_update_room:
  "map_of L ra = Some (ChatRoomAccount room) \<Longrightarrow>
   scan_all (AList.update ra (ChatRoomAccount room') L) = scan_all L"
proof (induction L)
  case Nil
  then show ?case by simp
next
  case (Cons kv L)
  obtain k v where kv: "kv = (k, v)" by (cases kv)
  show ?case
  proof (cases "k = ra")
    case True
    with Cons.prems kv show ?thesis by (simp add: scan_all_def)
  next
    case False
    with Cons kv have "scan_all (AList.update ra (ChatRoomAccount room') L) = scan_all L"
      by simp
    with False kv show ?thesis by (simp add: scan_all_def)
  qed
qed

lemma inbox_append: "inbox R (xs @ ys) = inbox R xs @ inbox R ys"
  by (simp add: inbox_def)




lemma toString_hi: "Buffer_toString_base64 [104, 105] = ''aGk=''"
  by (simp only: Buffer_toString_base64_def encode_hi)


lemma BN_toString_0: "BN_toString 0 = ''0''"
  by (simp add: BN_toString.simps [of 0])


lemma toView0: "toView (pda0, message0) = Inr view0"
  by (simp add: toView_def view0_def message0_def BN_toNumber_def andThen_def new_Date_def
        alice_def bob_def toString_hi BN_toString_0)








section \<open>The base64 boundary between the envelope and the ledger\<close>

lemma encryptMessage_Inr:
  "encryptMessage F seed msg pem = Inr s \<Longrightarrow> \<exists>c. s = encode64 c"
  by (auto simp: encryptMessage_def andThen_def split: sum.splits)

lemma base64_there_and_back:
  "Buffer_toString_base64 (Buffer_from_base64 (encode64 c)) = encode64 c"
  by (simp add: Buffer_toString_base64_def Buffer_from_base64_def decode64_encode64)

lemma appended_in_scan:
  assumes "ledger_append derive e sndr R bytes L = (Inr n, L')"
  shows "(derive (message_seeds (le_bytes 8 n)),
          \<lparr>sender = sndr, recipient = R, encryptedContent = bytes,
             timestamp = clock e, messageId = n\<rparr>) \<in> set (scan_all L')"
proof -
  let ?ra = "derive chat_room_seeds"
  let ?a = "derive (message_seeds (le_bytes 8 n))"
  let ?m = "\<lparr>sender = sndr, recipient = R, encryptedContent = bytes,
                timestamp = clock e, messageId = n\<rparr>"
  from ledger_append_done [OF assms] obtain room L1 where
    c: "create_if_absent (slot e) ?a (MessageAccount ?m) L = Some L1" and
    u: "L' = AList.update ?ra (ChatRoomAccount \<lparr>messageCount = n + 1\<rparr>) L1"
    by blast
  note m = ledger_append_map [OF assms]
  from m(1,2) have ne: "?a \<noteq> ?ra" by auto
  from map_of_create [OF c] m(1) ne
  have "map_of L1 ?ra = Some (ChatRoomAccount \<lparr>messageCount = n\<rparr>)" by simp
  with u have 1: "scan_all L' = scan_all L1" by (simp add: scan_all_update_room)
  from c have L1: "L1 = take (slot e) L @ (?a, MessageAccount ?m) # drop (slot e) L"
    by (simp add: create_if_absent_def split: if_splits)
  have "scan_all L1 = scan_all (take (slot e) L) @ (?a, ?m) # scan_all (drop (slot e) L)"
    unfolding L1 by (simp only: scan_all_append scan_all_Cons_message)
  with 1 show ?thesis by simp
qed

lemma toView_fields:
  "toView (a, m) = Inr v \<Longrightarrow>
     publicKey' v = a \<and> encryptedContent' v = Buffer_toString_base64 (encryptedContent m)"
  by (auto simp: toView_def BN_toNumber_def andThen_def split: if_splits)

lemma getMessagesForUser_client:
  "getMessagesForUser (client derive npk e wal) R L = mapM toView (inbox R (scan_all L))"
  by (simp add: client_def getMessagesForUser_initialized host_program_def andThen_def)

lemma pem_h: "pem_key ''h'' = Inr 104"
  by (simp add: pem_key_def)

lemma encrypt_hi: "encryptMessage tag_cipher [] [1] ''h'' = Inr ''aGk=''"
proof -
  have "encrypt_RSA_OAEP tag_cipher 104 [] [1] = Inr [104, 105]"
    by (simp add: tag_cipher_def)
  then show ?thesis
    by (simp add: encryptMessage_def andThen_def tag_cipher_def pem_h encode_hi del: encode64.simps)
qed

lemma decrypt_hi: "decryptMessage tag_cipher ''aGk='' ''h'' = Inr [1]"
proof -
  have "decode64 ''aGk='' = [104, 105]"
    using decode_hi by (simp add: Buffer_from_base64_def)
  then show ?thesis
    by (simp add: decryptMessage_def andThen_def tag_cipher_def pem_h byte_string_def)
qed

lemma decrypt_yo: "decryptMessage tag_cipher ''eW8='' ''h'' = Inl (Error ''Invalid RSAES-OAEP padding.'')"
proof -
  have "decode64 ''eW8='' = [121, 111]"
    using decode_yo by (simp add: Buffer_from_base64_def)
  then show ?thesis
    by (simp add: decryptMessage_def andThen_def tag_cipher_def pem_h)
qed

lemma scan_ledger1: "scan_all ledger1 = [(pda0, message0)]"
  by (simp add: scan_all_def ledger1_def)

lemma read_ledger1: "getMessagesForUser alice_chat bob ledger1 = Inr [view0]"
  by (simp add: alice_chat_def getMessagesForUser_client scan_ledger1 inbox_def message0_def
        toView0 [unfolded message0_def] andThen_def)

text \<open>
  C8.  Decoding a text that \<^verbatim>\<open>encode64\<close> produced, as \<^verbatim>\<open>sendMessage\<close> does, and
  encoding the bytes again, as \<^verbatim>\<open>getMessagesForUser\<close> does, gives the text back; so it
  does for every text that \<^verbatim>\<open>encryptMessage\<close> returns.  Through the ledger: when such a
  text is sent and the recipient then reads the inbox, the view of the record at the
  returned address carries exactly that text, and \<^verbatim>\<open>decryptMessage\<close> on it is
  \<^verbatim>\<open>decryptMessage\<close> on the text that was sent.
\<close>

theorem base64_boundary_lossless:
  "Buffer_toString_base64 (Buffer_from_base64 (encode64 encrypted)) = encode64 encrypted \<and>
   (encryptMessage F seed msg pem = Inr s \<longrightarrow>
      Buffer_toString_base64 (Buffer_from_base64 s) = s) \<and>
   (encryptMessage F seed msg pem = Inr s \<and>
    sendMessage (client derive npk e wal) s rcpt L = (Inr (t, pda), L') \<and>
    npk rcpt = Inr R \<and>
    getMessagesForUser (client derive npk e' wal') R L' = Inr views \<longrightarrow>
      (\<exists>v \<in> set views. publicKey' v = pda \<and> encryptedContent' v = s \<and>
          decryptMessage F (encryptedContent' v) priv = decryptMessage F s priv))"
proof (intro conjI impI)
  show "Buffer_toString_base64 (Buffer_from_base64 (encode64 encrypted)) = encode64 encrypted"
    by (rule base64_there_and_back)
next
  assume "encryptMessage F seed msg pem = Inr s"
  then show "Buffer_toString_base64 (Buffer_from_base64 s) = s"
    by (auto dest!: encryptMessage_Inr simp: base64_there_and_back)
next
  assume a: "encryptMessage F seed msg pem = Inr s \<and>
    sendMessage (client derive npk e wal) s rcpt L = (Inr (t, pda), L') \<and>
    npk rcpt = Inr R \<and>
    getMessagesForUser (client derive npk e' wal') R L' = Inr views"
  then have rt: "Buffer_toString_base64 (Buffer_from_base64 s) = s"
    by (auto dest!: encryptMessage_Inr simp: base64_there_and_back)
  from a have s: "sendMessage (client derive npk e wal) s rcpt L = (Inr (t, pda), L')" by simp
  from sendMessage_done [OF s] a obtain n where
    p: "pda = derive (message_seeds (le_bytes 8 n))" and
    ap: "ledger_append derive e wal R (Buffer_from_base64 s) L = (Inr n, L')"
    by auto
  let ?m = "\<lparr>sender = wal, recipient = R, encryptedContent = Buffer_from_base64 s,
                timestamp = clock e, messageId = n\<rparr>"
  from appended_in_scan [OF ap] p have "(pda, ?m) \<in> set (inbox R (scan_all L'))"
    by (simp add: inbox_def)
  then obtain i where i: "i < length (inbox R (scan_all L'))" "inbox R (scan_all L') ! i = (pda, ?m)"
    by (auto simp: in_set_conv_nth)
  from a have "list_all2 (\<lambda>v msg. toView msg = Inr v) views (inbox R (scan_all L'))"
    by (simp add: getMessagesForUser_client mapM_Inr_D)
  with i have v: "i < length views" "toView (pda, ?m) = Inr (views ! i)"
    by (auto simp: list_all2_conv_all_nth)
  from toView_fields [OF v(2)] rt have "publicKey' (views ! i) = pda" "encryptedContent' (views ! i) = s"
    by simp_all
  with v(1) show "\<exists>v \<in> set views. publicKey' v = pda \<and> encryptedContent' v = s \<and>
          decryptMessage F (encryptedContent' v) priv = decryptMessage F s priv"
    by (metis nth_mem)
qed


theorem base64_boundary_lossless_witness:
  "encryptMessage tag_cipher [] [1] ''h'' = Inr ''aGk='' \<and>
   sendMessage (client seeds_address any_key env1 alice) ''aGk='' ''Bob11111'' room0
     = (Inr (''sig1'', pda0), ledger1) \<and>
   any_key ''Bob11111'' = Inr bob \<and>
   getMessagesForUser (client seeds_address any_key env1 alice) bob ledger1 = Inr [view0] \<and>
   publicKey' view0 = pda0 \<and> encryptedContent' view0 = ''aGk='' \<and>
   Buffer_toString_base64 (Buffer_from_base64 ''aGk='') = ''aGk='' \<and>
   decryptMessage tag_cipher (encryptedContent' view0) ''h'' = Inr [1]"
proof -
  have k: "any_key ''Bob11111'' = Inr bob" by (simp add: any_key_def bob_def)
  have r: "getMessagesForUser (client seeds_address any_key env1 alice) bob ledger1 = Inr [view0]"
    using read_ledger1 by (simp add: alice_chat_def)
  from encrypt_hi send1 k r decrypt_hi
    base64_boundary_lossless [of "[104, 105]" tag_cipher "[]" "[1]" "''h''" "''aGk=''"
      seeds_address any_key env1 alice "''Bob11111''" room0 "''sig1''" pda0 ledger1 bob
      env1 alice "[view0]" "''h''"]
  show ?thesis by (simp add: view0_def)
qed


section \<open>The round trip of the envelope\<close>

text \<open>
  What \<^verbatim>\<open>decryptMessage\<close> returns is a byte string of the library: none of its code
  units exceeds 255.
\<close>

lemma ucast_byte_le: "(ucast (b :: byte) :: 16 word) \<le> 255"
proof -
  have lt: "unat b < 256"
    using unsigned_less [of b, where ?'a = nat] by simp
  have "unat (ucast b :: 16 word) = take_bit 16 (unat b)"
    by (simp add: unsigned_ucast_eq)
  also have "\<dots> = unat b"
    using lt by (simp add: take_bit_nat_eq_self)
  finally show ?thesis
    using lt by (simp add: word_le_nat_alt)
qed

lemma byte_string_units: "\<forall>u \<in> set (byte_string bs). u \<le> 255"
  by (auto simp: byte_string_def ucast_byte_le)

lemma decryptMessage_byte_string:
  "decryptMessage F c privateKeyPem = Inr P \<Longrightarrow> \<forall>u \<in> set P. u \<le> 255"
  using byte_string_units
  by (auto simp: decryptMessage_def andThen_def Let_def split: sum.splits)

lemma demo_message_length: "length demo_message = 50"
  by (simp add: demo_message_def)

lemma demo_message_padlock: "0xD83D \<in> set demo_message"
  by (simp add: demo_message_def)

text \<open>
  C1.  The round trip \<^verbatim>\<open>decryptMessage(encryptMessage(P, pub), priv)\<close> does not return
  \<open>P\<close> for the message of the demo, which has 50 code units, well below the maximum
  payload: \<^verbatim>\<open>encryptMessage\<close> hands the string to the library without encoding it to
  bytes, and the padlock is two code units above 255, which no result of
  \<^verbatim>\<open>decryptMessage\<close> contains.  This holds for every key pair, every seed, and
  whatever the library does with such a string; the round trip either throws or returns
  another string.
\<close>

theorem demo_message_round_trip_fails:
  "length demo_message = 50 \<and>
   andThen (encryptMessage F seed demo_message recipientPublicKeyPem)
     (\<lambda>encrypted. decryptMessage F encrypted privateKeyPem) \<noteq> Inr demo_message"
proof -
  have "decryptMessage F c privateKeyPem \<noteq> Inr demo_message" for c
  proof
    assume "decryptMessage F c privateKeyPem = Inr demo_message"
    from decryptMessage_byte_string [OF this] demo_message_padlock
    have "(0xD83D :: 16 word) \<le> 255" by blast
    then show False by simp
  qed
  then show ?thesis
    by (simp add: demo_message_length andThen_def split: sum.splits)
qed

section \<open>A record that fails to decrypt does not end the loop\<close>

lemma read_callback_outcome:
  "snd (read_callback F k msg i) = Inr () \<and>
   filter is_outcome (fst (read_callback F k msg i)) = [read_outcome F k msg]"
  by (simp add: read_callback_def read_outcome_def is_outcome_def Let_def split: sum.splits)

lemma demo_callback_outcome:
  "snd (demo_callback F k msg i) = Inr () \<and>
   filter is_outcome (fst (demo_callback F k msg i)) = [demo_outcome F k msg]"
  by (simp add: demo_callback_def demo_outcome_def is_outcome_def Let_def split: sum.splits)

lemma forEach_from_total:
  assumes "\<And>x i. snd (f x i) = Inr () \<and> filter is_outcome (fst (f x i)) = [g x]"
  shows "snd (forEach_from i f xs) = Inr () \<and>
         filter is_outcome (fst (forEach_from i f xs)) = map g xs"
proof (induction xs arbitrary: i)
  case Nil
  then show ?case by simp
next
  case (Cons x xs)
  obtain out where o: "f x i = (out, Inr ())" "filter is_outcome out = [g x]"
    using assms [of x i] by (cases "f x i") auto
  obtain out' r where r: "forEach_from (Suc i) f xs = (out', r)"
    by (cases "forEach_from (Suc i) f xs")
  with Cons.IH [of "Suc i"] have "r = Inr ()" "filter is_outcome out' = map g xs" by simp_all
  with o r show ?case by simp
qed

text \<open>
  C6.  In the \<^verbatim>\<open>read\<close> command and in the demo, the loop over an inbox never throws and
  reports one outcome per record, in order: the plaintext of a record that decrypts, the
  failure of a record that does not.  So every record that decrypts is printed, wherever
  it stands among records that fail.
\<close>

theorem receive_partial_success:
  "snd (forEach (read_callback F privateKey) messages) = Inr () \<and>
   filter is_outcome (fst (forEach (read_callback F privateKey) messages))
     = map (read_outcome F privateKey) messages \<and>
   snd (forEach (demo_callback F privateKey) messages) = Inr () \<and>
   filter is_outcome (fst (forEach (demo_callback F privateKey) messages))
     = map (demo_outcome F privateKey) messages \<and>
   (\<forall>msg \<in> set messages. \<forall>p. decryptMessage F (encryptedContent' msg) privateKey = Inr p \<longrightarrow>
      Decrypted p \<in> set (fst (forEach (read_callback F privateKey) messages)) \<and>
      Decrypted p \<in> set (fst (forEach (demo_callback F privateKey) messages)))"
proof -
  note r = forEach_from_total [of "read_callback F privateKey" "read_outcome F privateKey" 0 messages,
      OF read_callback_outcome, folded forEach_def]
  note d = forEach_from_total [of "demo_callback F privateKey" "demo_outcome F privateKey" 0 messages,
      OF demo_callback_outcome, folded forEach_def]
  have "Decrypted p \<in> set (fst (forEach (read_callback F privateKey) messages)) \<and>
        Decrypted p \<in> set (fst (forEach (demo_callback F privateKey) messages))"
    if m: "msg \<in> set messages" and p: "decryptMessage F (encryptedContent' msg) privateKey = Inr p"
    for msg p
  proof -
    from p have "read_outcome F privateKey msg = Decrypted p" "demo_outcome F privateKey msg = Decrypted p"
      by (simp_all add: read_outcome_def demo_outcome_def)
    with m have "Decrypted p \<in> set (map (read_outcome F privateKey) messages)"
      "Decrypted p \<in> set (map (demo_outcome F privateKey) messages)"
      by force+
    with r d have "Decrypted p \<in> set (filter is_outcome (fst (forEach (read_callback F privateKey) messages)))"
      "Decrypted p \<in> set (filter is_outcome (fst (forEach (demo_callback F privateKey) messages)))"
      by simp_all
    then show ?thesis by simp
  qed
  with r d show ?thesis by blast
qed

theorem receive_partial_success_witness:
  "decryptMessage tag_cipher (encryptedContent' view1) ''h'' = Inl (Error ''Invalid RSAES-OAEP padding.'') \<and>
   decryptMessage tag_cipher (encryptedContent' view0) ''h'' = Inr [1] \<and>
   forEach (read_callback tag_cipher ''h'') [view1, view0] =
     ([MessageNumber 1, From ''Alice1111'', Time (Date 1700000060000),
       DecryptionError (Error ''Invalid RSAES-OAEP padding.''), CouldNotDecrypt, Separator,
       MessageNumber 2, From ''Alice1111'', Time (Date 1700000000000),
       Decrypted [1], Separator], Inr ()) \<and>
   Decrypted [1] \<in> set (fst (forEach (read_callback tag_cipher ''h'') [view1, view0])) \<and>
   Decrypted [1] \<in> set (fst (forEach (demo_callback tag_cipher ''h'') [view1, view0]))"
proof -
  have d1: "decryptMessage tag_cipher (encryptedContent' view1) ''h'' = Inl (Error ''Invalid RSAES-OAEP padding.'')"
    using decrypt_yo by (simp add: view1_def)
  have d0: "decryptMessage tag_cipher (encryptedContent' view0) ''h'' = Inr [1]"
    using decrypt_hi by (simp add: view0_def)
  have out: "forEach (read_callback tag_cipher ''h'') [view1, view0] =
     ([MessageNumber 1, From ''Alice1111'', Time (Date 1700000060000),
       DecryptionError (Error ''Invalid RSAES-OAEP padding.''), CouldNotDecrypt, Separator,
       MessageNumber 2, From ''Alice1111'', Time (Date 1700000000000),
       Decrypted [1], Separator], Inr ())"
    by (simp add: forEach_def read_callback_def d1 d0) (simp add: view0_def view1_def)
  have m: "view0 \<in> set [view1, view0]" by simp
  from d1 d0 out m
    receive_partial_success [of tag_cipher "''h''" "[view1, view0]"]
  show ?thesis by blast
qed

section \<open>Key files are loaded, not overwritten\<close>

lemma writeFileSync_files:
  "writeFileSync fs p c = Inr fs' \<Longrightarrow> files fs' = (files fs)(p \<mapsto> c) \<and> dirs fs' = dirs fs"
  by (auto simp: writeFileSync_def split: if_splits)

lemma mkdirSync_files:
  "mkdirSync fs d = Inr fs' \<Longrightarrow> files fs' = files fs"
  by (auto simp: mkdirSync_def split: if_splits)

lemma loadOrCreateKeypair_exists:
  "existsSync fs (path_join dirname ''keys'' filename) \<Longrightarrow>
   loadOrCreateKeypair K dirname fresh filename fs =
     (andThen (readFileSync fs (path_join dirname ''keys'' filename)) (\<lambda>content.
        andThen (JSON_parse K content) (Keypair_fromSecretKey K)), fs)"
  by (simp add: loadOrCreateKeypair_def Let_def)

lemma loadOrCreateEncryptionKeys_exists:
  "existsSync fs (path_join dirname ''keys'' filename) \<Longrightarrow>
   loadOrCreateEncryptionKeys K dirname fresh filename fs =
     (andThen (readFileSync fs (path_join dirname ''keys'' filename)) (JSON_parse K), fs)"
  by (simp add: loadOrCreateEncryptionKeys_def Let_def)

lemma loadOrCreateKeypair_files:
  "files (snd (loadOrCreateKeypair K dirname fresh filename fs)) = files fs \<or>
   (\<not> existsSync fs (path_join dirname ''keys'' filename) \<and>
    files (snd (loadOrCreateKeypair K dirname fresh filename fs)) =
      (files fs)(path_join dirname ''keys'' filename \<mapsto> JSON_stringify K (secretKey_array K fresh)))"
proof (cases "existsSync fs (path_join dirname ''keys'' filename)")
  case True
  then show ?thesis by (simp add: loadOrCreateKeypair_exists)
next
  case False
  then show ?thesis
    by (auto simp: loadOrCreateKeypair_def Let_def split: sum.splits
             dest!: writeFileSync_files mkdirSync_files)
qed

lemma loadOrCreateEncryptionKeys_files:
  "files (snd (loadOrCreateEncryptionKeys K dirname fresh filename fs)) = files fs \<or>
   (\<not> existsSync fs (path_join dirname ''keys'' filename) \<and>
    files (snd (loadOrCreateEncryptionKeys K dirname fresh filename fs)) =
      (files fs)(path_join dirname ''keys'' filename \<mapsto> JSON_stringify K fresh))"
proof (cases "existsSync fs (path_join dirname ''keys'' filename)")
  case True
  then show ?thesis by (simp add: loadOrCreateEncryptionKeys_exists)
next
  case False
  then show ?thesis
    by (auto simp: loadOrCreateEncryptionKeys_def Let_def split: sum.splits
             dest!: writeFileSync_files)
qed

lemma loadOrCreateKeypair_keeps:
  "files fs p = Some c \<Longrightarrow> files (snd (loadOrCreateKeypair K dirname fresh filename fs)) p = Some c"
  using loadOrCreateKeypair_files [of K dirname fresh filename fs]
  by (auto simp: existsSync_def)

lemma loadOrCreateEncryptionKeys_keeps:
  "files fs p = Some c \<Longrightarrow>
   files (snd (loadOrCreateEncryptionKeys K dirname fresh filename fs)) p = Some c"
  using loadOrCreateEncryptionKeys_files [of K dirname fresh filename fs]
  by (auto simp: existsSync_def)

lemma setup_command_keeps:
  assumes "files fs p = Some c"
  shows "files (snd (setup_command K dirname a b ea eb fs)) p = Some c"
proof -
  let ?f1 = "snd (loadOrCreateKeypair K dirname a ''alice.json'' fs)"
  let ?f2 = "snd (loadOrCreateKeypair K dirname b ''bob.json'' ?f1)"
  let ?f3 = "snd (loadOrCreateEncryptionKeys K dirname ea ''alice_encryption.json'' ?f2)"
  let ?f4 = "snd (loadOrCreateEncryptionKeys K dirname eb ''bob_encryption.json'' ?f3)"
  have 1: "files ?f1 p = Some c" by (rule loadOrCreateKeypair_keeps [OF assms])
  have 2: "files ?f2 p = Some c" by (rule loadOrCreateKeypair_keeps [OF 1])
  have 3: "files ?f3 p = Some c" by (rule loadOrCreateEncryptionKeys_keeps [OF 2])
  have 4: "files ?f4 p = Some c" by (rule loadOrCreateEncryptionKeys_keeps [OF 3])
  have "snd (setup_command K dirname a b ea eb fs) \<in> {?f1, ?f2, ?f3, ?f4}"
    by (simp add: setup_command_def split: prod.splits sum.splits)
  with 1 2 3 4 show ?thesis by auto
qed


lemma path_alice: "path_join ''/app'' ''keys'' ''alice.json'' = ''/app/keys/alice.json''"
  by (simp add: path_join_def)

lemma path_bob: "path_join ''/app'' ''keys'' ''bob.json'' = ''/app/keys/bob.json''"
  by (simp add: path_join_def)

lemma dirname_bob: "path_dirname ''/app/keys/bob.json'' = ''/app/keys''"
  by (simp add: path_dirname_def)

lemma create_bob:
  "loadOrCreateKeypair plain_keylib ''/app'' ''[4,5,6]'' ''bob.json'' fs0 =
     (Inr ''[4,5,6]'',
      fs0\<lparr>files := (files fs0)(''/app/keys/bob.json'' \<mapsto> ''[4,5,6]'')\<rparr>)"
  by (simp add: loadOrCreateKeypair_def Let_def path_bob dirname_bob existsSync_def
        writeFileSync_def plain_keylib_def fs0_def)

lemma create_bob_encryption:
  "loadOrCreateEncryptionKeys plain_keylib ''/app'' ''{keys}'' ''bob.json'' fs0 =
     (Inr ''{keys}'',
      fs0\<lparr>files := (files fs0)(''/app/keys/bob.json'' \<mapsto> ''{keys}'')\<rparr>)"
  by (simp add: loadOrCreateEncryptionKeys_def Let_def path_bob dirname_bob existsSync_def
        writeFileSync_def plain_keylib_def fs0_def)

text \<open>
  C10.  When the key file of a label exists, \<^verbatim>\<open>loadOrCreateKeypair\<close> and
  \<^verbatim>\<open>loadOrCreateEncryptionKeys\<close> return what the stored text parses to and leave the
  file system as it is.  In every case, also when they create a file, and through the
  four loads of \<^verbatim>\<open>setup\<close>, each file that exists keeps its text.  The files change only
  when no file or directory exists at the path of the label, and then only that path is
  written, with the fresh key.
\<close>

theorem key_loading_keeps_files:
  "(files fs (path_join dirname ''keys'' filename) = Some content \<longrightarrow>
      loadOrCreateKeypair K dirname fresh filename fs =
        (andThen (JSON_parse K content) (Keypair_fromSecretKey K), fs) \<and>
      loadOrCreateEncryptionKeys K dirname freshE filename fs = (JSON_parse K content, fs)) \<and>
   (existsSync fs (path_join dirname ''keys'' filename) \<longrightarrow>
      snd (loadOrCreateKeypair K dirname fresh filename fs) = fs \<and>
      snd (loadOrCreateEncryptionKeys K dirname freshE filename fs) = fs) \<and>
   (files fs p = Some c \<longrightarrow>
      files (snd (loadOrCreateKeypair K dirname fresh filename fs)) p = Some c \<and>
      files (snd (loadOrCreateEncryptionKeys K dirname freshE filename fs)) p = Some c \<and>
      files (snd (setup_command K dirname a b ea eb fs)) p = Some c) \<and>
   (files (snd (loadOrCreateKeypair K dirname fresh filename fs)) \<noteq> files fs \<longrightarrow>
      \<not> existsSync fs (path_join dirname ''keys'' filename) \<and>
      files (snd (loadOrCreateKeypair K dirname fresh filename fs)) =
        (files fs)(path_join dirname ''keys'' filename \<mapsto>
           JSON_stringify K (secretKey_array K fresh))) \<and>
   (files (snd (loadOrCreateEncryptionKeys K dirname freshE filename fs)) \<noteq> files fs \<longrightarrow>
      \<not> existsSync fs (path_join dirname ''keys'' filename) \<and>
      files (snd (loadOrCreateEncryptionKeys K dirname freshE filename fs)) =
        (files fs)(path_join dirname ''keys'' filename \<mapsto> JSON_stringify K freshE))"
proof (intro conjI impI)
  assume f: "files fs (path_join dirname ''keys'' filename) = Some content"
  then have e: "existsSync fs (path_join dirname ''keys'' filename)"
    by (simp add: existsSync_def)
  from f show "loadOrCreateKeypair K dirname fresh filename fs =
        (andThen (JSON_parse K content) (Keypair_fromSecretKey K), fs)"
    by (simp add: loadOrCreateKeypair_exists [OF e] readFileSync_def andThen_def)
  from f show "loadOrCreateEncryptionKeys K dirname freshE filename fs = (JSON_parse K content, fs)"
    by (simp add: loadOrCreateEncryptionKeys_exists [OF e] readFileSync_def andThen_def)
next
  assume e: "existsSync fs (path_join dirname ''keys'' filename)"
  show "snd (loadOrCreateKeypair K dirname fresh filename fs) = fs"
    by (simp add: loadOrCreateKeypair_exists [OF e])
  show "snd (loadOrCreateEncryptionKeys K dirname freshE filename fs) = fs"
    by (simp add: loadOrCreateEncryptionKeys_exists [OF e])
next
  assume f: "files fs p = Some c"
  show "files (snd (loadOrCreateKeypair K dirname fresh filename fs)) p = Some c"
    by (rule loadOrCreateKeypair_keeps [OF f])
  show "files (snd (loadOrCreateEncryptionKeys K dirname freshE filename fs)) p = Some c"
    by (rule loadOrCreateEncryptionKeys_keeps [OF f])
  show "files (snd (setup_command K dirname a b ea eb fs)) p = Some c"
    by (rule setup_command_keeps [OF f])
next
  assume n: "files (snd (loadOrCreateKeypair K dirname fresh filename fs)) \<noteq> files fs"
  with loadOrCreateKeypair_files [of K dirname fresh filename fs]
  show "\<not> existsSync fs (path_join dirname ''keys'' filename)"
    and "files (snd (loadOrCreateKeypair K dirname fresh filename fs)) =
        (files fs)(path_join dirname ''keys'' filename \<mapsto>
           JSON_stringify K (secretKey_array K fresh))"
    by blast+
next
  assume n: "files (snd (loadOrCreateEncryptionKeys K dirname freshE filename fs)) \<noteq> files fs"
  with loadOrCreateEncryptionKeys_files [of K dirname freshE filename fs]
  show "\<not> existsSync fs (path_join dirname ''keys'' filename)"
    and "files (snd (loadOrCreateEncryptionKeys K dirname freshE filename fs)) =
        (files fs)(path_join dirname ''keys'' filename \<mapsto> JSON_stringify K freshE)"
    by blast+
qed

theorem key_loading_keeps_files_witness:
  "files fs0 (path_join ''/app'' ''keys'' ''alice.json'') = Some ''[1,2,3]'' \<and>
   existsSync fs0 (path_join ''/app'' ''keys'' ''alice.json'') \<and>
   loadOrCreateKeypair plain_keylib ''/app'' ''[7,8,9]'' ''alice.json'' fs0 = (Inr ''[1,2,3]'', fs0) \<and>
   loadOrCreateEncryptionKeys plain_keylib ''/app'' ''{keys}'' ''alice.json'' fs0
     = (Inr ''[1,2,3]'', fs0) \<and>
   files (snd (setup_command plain_keylib ''/app'' ''[7,8,9]'' ''[4,5,6]'' ''{a}'' ''{b}'' fs0))
     ''/app/keys/alice.json'' = Some ''[1,2,3]'' \<and>
   files (snd (loadOrCreateKeypair plain_keylib ''/app'' ''[4,5,6]'' ''bob.json'' fs0)) \<noteq> files fs0 \<and>
   files (snd (loadOrCreateEncryptionKeys plain_keylib ''/app'' ''{keys}'' ''bob.json'' fs0))
     \<noteq> files fs0 \<and>
   \<not> existsSync fs0 (path_join ''/app'' ''keys'' ''bob.json'')"
proof -
  have f: "files fs0 (path_join ''/app'' ''keys'' ''alice.json'') = Some ''[1,2,3]''"
    by (simp add: path_alice fs0_def)
  have f': "files fs0 ''/app/keys/alice.json'' = Some ''[1,2,3]''"
    by (simp add: fs0_def)
  have e: "existsSync fs0 (path_join ''/app'' ''keys'' ''alice.json'')"
    using f by (simp add: existsSync_def)
  have nb: "files fs0 ''/app/keys/bob.json'' = None" by (simp add: fs0_def)
  have c1: "files (snd (loadOrCreateKeypair plain_keylib ''/app'' ''[4,5,6]'' ''bob.json'' fs0))
              \<noteq> files fs0"
  proof
    assume "files (snd (loadOrCreateKeypair plain_keylib ''/app'' ''[4,5,6]'' ''bob.json'' fs0))
              = files fs0"
    then have "files (snd (loadOrCreateKeypair plain_keylib ''/app'' ''[4,5,6]'' ''bob.json'' fs0))
                 ''/app/keys/bob.json'' = files fs0 ''/app/keys/bob.json''"
      by simp
    with nb show False by (simp add: create_bob)
  qed
  have c2: "files (snd (loadOrCreateEncryptionKeys plain_keylib ''/app'' ''{keys}'' ''bob.json'' fs0))
              \<noteq> files fs0"
  proof
    assume "files (snd (loadOrCreateEncryptionKeys plain_keylib ''/app'' ''{keys}'' ''bob.json'' fs0))
              = files fs0"
    then have "files (snd (loadOrCreateEncryptionKeys plain_keylib ''/app'' ''{keys}'' ''bob.json'' fs0))
                 ''/app/keys/bob.json'' = files fs0 ''/app/keys/bob.json''"
      by simp
    with nb show False by (simp add: create_bob_encryption)
  qed
  have K: "JSON_parse plain_keylib = Inr" "Keypair_fromSecretKey plain_keylib = Inr"
    by (simp_all add: plain_keylib_def)
  note A = key_loading_keeps_files [of fs0 "''/app''" "''alice.json''" "''[1,2,3]''" plain_keylib
      "''[7,8,9]''" "''{keys}''" "''/app/keys/alice.json''" "''[1,2,3]''"
      "''[7,8,9]''" "''[4,5,6]''" "''{a}''" "''{b}''"]
  note B = key_loading_keeps_files [of fs0 "''/app''" "''bob.json''" "''[1,2,3]''" plain_keylib
      "''[4,5,6]''" "''{keys}''" "''/app/keys/alice.json''" "''[1,2,3]''"
      "''[7,8,9]''" "''[4,5,6]''" "''{a}''" "''{b}''"]
  from A f have
    "loadOrCreateKeypair plain_keylib ''/app'' ''[7,8,9]'' ''alice.json'' fs0 =
       (andThen (JSON_parse plain_keylib ''[1,2,3]'') (Keypair_fromSecretKey plain_keylib), fs0)"
    "loadOrCreateEncryptionKeys plain_keylib ''/app'' ''{keys}'' ''alice.json'' fs0 =
       (JSON_parse plain_keylib ''[1,2,3]'', fs0)"
    by blast+
  then have l:
    "loadOrCreateKeypair plain_keylib ''/app'' ''[7,8,9]'' ''alice.json'' fs0 = (Inr ''[1,2,3]'', fs0)"
    "loadOrCreateEncryptionKeys plain_keylib ''/app'' ''{keys}'' ''alice.json'' fs0
       = (Inr ''[1,2,3]'', fs0)"
    by (simp_all add: K andThen_def)
  from A f' have s:
    "files (snd (setup_command plain_keylib ''/app'' ''[7,8,9]'' ''[4,5,6]'' ''{a}'' ''{b}'' fs0))
       ''/app/keys/alice.json'' = Some ''[1,2,3]''"
    by blast
  from B c1 have ne: "\<not> existsSync fs0 (path_join ''/app'' ''keys'' ''bob.json'')"
    by blast
  from f e l s c1 c2 ne show ?thesis by blast
qed

end
